theory Spec2Isabelle
  imports Complex_Main
begin

section \<open>Google Calendar Event Dashboard API: a shallow embedding of index.js\<close>

text \<open>
  The server of \<^verbatim>\<open>src/index.js\<close> keeps two pieces of mutable state: the user store
  (\<^verbatim>\<open>db.data.users\<close>, an array of \<^verbatim>\<open>{email, tokens}\<close> objects) and the in-memory
  cache (\<^verbatim>\<open>cache\<close>, an object keyed by email).  Every handler is modelled as a
  function from the request, the clock reading \<^verbatim>\<open>Date.now()\<close>, the answer of the
  external service and the state to a response and the new state.

  Conventions of the embedding:
  \<^item> a JavaScript value that may be \<^verbatim>\<open>undefined\<close> or \<^verbatim>\<open>null\<close> is an \<open>option\<close>;
    both are \<open>None\<close> (the provider's JSON omits unset fields);
  \<^item> a rejected promise or a thrown exception is the \<open>Inl\<close> branch of a sum;
  \<^item> a number that may be \<^verbatim>\<open>NaN\<close> is an \<open>option\<close>, with \<open>None\<close> for \<^verbatim>\<open>NaN\<close>;
    quotients are exact rationals (for a time difference below \<open>2^53\<close>
    milliseconds the double quotient by 60000 rounds to the same integer);
  \<^item> the cache object is a map; its keys are e-mail addresses, never names of
    properties inherited from \<^verbatim>\<open>Object.prototype\<close>;
  \<^item> the handlers run one after the other (Node's event loop interleaves them
    only at \<^verbatim>\<open>await\<close>; interleavings are not modelled);
  \<^item> \<open>provider_calls\<close> is a ghost counter of the calls to
    \<^verbatim>\<open>calendar.events.list\<close>.
\<close>

subsection \<open>JavaScript truthiness of optional strings\<close>

definition truthy :: "string option \<Rightarrow> bool" where
  "truthy v = (case v of None \<Rightarrow> False | Some s \<Rightarrow> s \<noteq> [])"

text \<open>\<^verbatim>\<open>a || b\<close> on optional strings.\<close>

definition js_or :: "string option \<Rightarrow> string option \<Rightarrow> string option" where
  "js_or a b = (if truthy a then a else b)"

subsection \<open>Data model\<close>

record tokens =
  access_token :: "string option"
  id_token :: "string option"
  refresh_token :: "string option"

record user =
  email :: string
  tokens :: "tokens option"

text \<open>A raw event of the provider (the fields that index.js reads).\<close>

record event_time =
  dateTime :: "string option"
  date :: "string option"

datatype attendee = Attendee (attendee_email: "string option")

record raw_event =
  raw_id :: "string option"
  raw_status :: "string option"
  raw_start :: "event_time option"
  raw_end :: "event_time option"
  raw_summary :: "string option"
  raw_location :: "string option"
  raw_attendees :: "attendee list option"

text \<open>The normalized event built by the \<^verbatim>\<open>.map\<close> callback of \<^verbatim>\<open>fetchProcessedEvents\<close>.\<close>

record event =
  ev_id :: "string option"
  title :: string
  ev_start :: "string option"
  ev_end :: "string option"
  durationMinutes :: "int option"
  location :: string
  attendees :: "string option list"

record summary =
  totalEvents :: nat
  totalHours :: "rat option"
  firstEventStart :: "string option"
  lastEventEnd :: "string option"

record cache_entry =
  events :: "event list option"
  summary :: "summary option"
  expiry :: "int option"

record state =
  users :: "user list"
  cache :: "string \<rightharpoonup> cache_entry"
  credentials :: "tokens option"
  provider_calls :: nat

datatype error = ProviderError string | TypeError string

fun message :: "error \<Rightarrow> string" where
  "message (ProviderError m) = m"
| "message (TypeError m) = m"

datatype body =
    Text string
  | EventsJson "event list"
  | SummaryJson summary
  | EventJson event
  | ErrorJson string "string option"

datatype response = Response (status: nat) (body: body)

subsection \<open>User store\<close>

text \<open>\<^verbatim>\<open>getUser\<close>: \<^verbatim>\<open>db.data.users.find(u => u.email === email)\<close>.\<close>

definition getUser :: "string \<Rightarrow> state \<Rightarrow> user option" where
  "getUser e s = List.find (\<lambda>u. email u = e) (users s)"

text \<open>
  \<^verbatim>\<open>saveUser\<close>: the first record with the e-mail gets its \<^verbatim>\<open>tokens\<close> field assigned
  (the object found is mutated inside the array); without one, a new record is pushed.
\<close>

fun upsert :: "string \<Rightarrow> tokens \<Rightarrow> user list \<Rightarrow> user list" where
  "upsert e t [] = [\<lparr>email = e, tokens = Some t\<rparr>]"
| "upsert e t (u # us) =
     (if email u = e then u\<lparr>tokens := Some t\<rparr> # us else u # upsert e t us)"

definition saveUser :: "string \<Rightarrow> tokens \<Rightarrow> state \<Rightarrow> state" where
  "saveUser e t s = s\<lparr>users := upsert e t (users s)\<rparr>"

subsection \<open>Cache\<close>

definition CACHE_TTL_MS :: int where
  "CACHE_TTL_MS = 60 * 1000"

definition invalidateCache :: "string \<Rightarrow> state \<Rightarrow> state" where
  "invalidateCache e s =
     s\<lparr>cache := (cache s)(e \<mapsto> \<lparr>events = None, summary = None, expiry = Some 0\<rparr>)\<rparr>"

text \<open>\<^verbatim>\<open>cache[email] || {}\<close>: the entry, or a fresh object with no field set.\<close>

definition entry_or_empty :: "state \<Rightarrow> string \<Rightarrow> cache_entry" where
  "entry_or_empty s e =
     (case cache s e of
        Some c \<Rightarrow> c
      | None \<Rightarrow> \<lparr>events = None, summary = None, expiry = None\<rparr>)"

text \<open>\<^verbatim>\<open>cache[email].expiry > now\<close>; \<^verbatim>\<open>undefined > now\<close> is false.\<close>

definition unexpired :: "cache_entry \<Rightarrow> int \<Rightarrow> bool" where
  "unexpired c now = (case expiry c of None \<Rightarrow> False | Some x \<Rightarrow> x > now)"

subsection \<open>Middleware\<close>

text \<open>
  \<^verbatim>\<open>ensureAuthenticated\<close>: \<open>Inl\<close> is the response that ends the request, \<open>Inr\<close> the
  e-mail stored in \<^verbatim>\<open>req.userEmail\<close> and the state after \<^verbatim>\<open>setCredentials\<close>.
\<close>

definition ensureAuthenticated :: "string option \<Rightarrow> state \<Rightarrow> response + (string \<times> state)" where
  "ensureAuthenticated hdr s =
     (case hdr of
        None \<Rightarrow> Inl (Response 400 (Text ''Missing X-User-Email header''))
      | Some e \<Rightarrow>
          if e = [] then Inl (Response 400 (Text ''Missing X-User-Email header''))
          else (case getUser e s of
                  None \<Rightarrow> Inl (Response 401 (Text ''Not authenticated. Go to /auth to login.''))
                | Some u \<Rightarrow>
                    (case tokens u of
                       None \<Rightarrow> Inl (Response 401 (Text ''Not authenticated. Go to /auth to login.''))
                     | Some t \<Rightarrow> Inr (e, s\<lparr>credentials := Some t\<rparr>))))"

subsection \<open>Event fetcher\<close>

text \<open>The predicate of \<^verbatim>\<open>.filter\<close>; \<^verbatim>\<open>&&\<close> evaluates from left to right.\<close>

definition keep :: "raw_event \<Rightarrow> bool" where
  "keep e =
     (raw_status e \<noteq> Some ''cancelled'' \<and>
      (case raw_start e of
         None \<Rightarrow> False
       | Some st \<Rightarrow>
           (case raw_end e of
              None \<Rightarrow> False
            | Some en \<Rightarrow>
                truthy (js_or (dateTime st) (date st)) \<and>
                truthy (js_or (dateTime en) (date en)))))"

text \<open>
  \<^verbatim>\<open>new Date(v)\<close> as milliseconds since the epoch, \<open>None\<close> for an invalid date.
  How a string parses is the JavaScript engine's business: \<open>parse\<close> is a parameter.
\<close>

definition new_Date :: "(string \<Rightarrow> int option) \<Rightarrow> string option \<Rightarrow> int option" where
  "new_Date parse v = (case v of None \<Rightarrow> None | Some s \<Rightarrow> parse s)"

text \<open>\<^verbatim>\<open>Math.round\<close>: the nearest integer, a tie going up.\<close>

definition Math_round :: "rat \<Rightarrow> int" where
  "Math_round x = \<lfloor>x + 1 / 2\<rfloor>"

text \<open>\<^verbatim>\<open>Math.round((new Date(end) - new Date(start)) / (1000 * 60))\<close>.\<close>

definition duration :: "(string \<Rightarrow> int option) \<Rightarrow> string option \<Rightarrow> string option \<Rightarrow> int option" where
  "duration parse en st =
     (case new_Date parse en of
        None \<Rightarrow> None
      | Some b \<Rightarrow>
          (case new_Date parse st of
             None \<Rightarrow> None
           | Some a \<Rightarrow> Some (Math_round (of_int (b - a) / (1000 * 60)))))"

text \<open>
  The callback of \<^verbatim>\<open>.map\<close>.  Reading \<^verbatim>\<open>e.start.dateTime\<close> of an event without
  \<^verbatim>\<open>start\<close> throws a TypeError, as does \<^verbatim>\<open>e.end.dateTime\<close> without \<^verbatim>\<open>end\<close>.
\<close>

definition normalizeEvent :: "(string \<Rightarrow> int option) \<Rightarrow> raw_event \<Rightarrow> error + event" where
  "normalizeEvent parse e =
     (case raw_start e of
        None \<Rightarrow> Inl (TypeError ''Cannot read properties of undefined (reading 'dateTime')'')
      | Some st \<Rightarrow>
          (case raw_end e of
             None \<Rightarrow> Inl (TypeError ''Cannot read properties of undefined (reading 'dateTime')'')
           | Some en \<Rightarrow>
               (let start = js_or (dateTime st) (date st);
                    end = js_or (dateTime en) (date en)
                in Inr \<lparr>ev_id = raw_id e,
                        title = (case js_or (raw_summary e) (Some ''No Title'') of
                                   Some x \<Rightarrow> x | None \<Rightarrow> ''No Title''),
                        ev_start = start,
                        ev_end = end,
                        durationMinutes = duration parse end start,
                        location = (case js_or (raw_location e) (Some []) of
                                      Some x \<Rightarrow> x | None \<Rightarrow> []),
                        attendees = map attendee_email
                                      (case raw_attendees e of Some as \<Rightarrow> as | None \<Rightarrow> [])\<rparr>)))"

text \<open>\<^verbatim>\<open>.map\<close> with a callback that may throw: the first exception ends the loop.\<close>

fun map_throw :: "('a \<Rightarrow> error + 'b) \<Rightarrow> 'a list \<Rightarrow> error + 'b list" where
  "map_throw f [] = Inr []"
| "map_throw f (x # xs) =
     (case f x of
        Inl err \<Rightarrow> Inl err
      | Inr y \<Rightarrow> (case map_throw f xs of Inl err \<Rightarrow> Inl err | Inr ys \<Rightarrow> Inr (y # ys)))"

definition processEvents :: "(string \<Rightarrow> int option) \<Rightarrow> raw_event list \<Rightarrow> error + event list" where
  "processEvents parse es = map_throw (normalizeEvent parse) (filter keep es)"

text \<open>
  The answer of \<^verbatim>\<open>calendar.events.list\<close>: \<open>Inl m\<close> when the call rejects with message
  \<open>m\<close>, otherwise \<^verbatim>\<open>res.data.items\<close>, which may be missing.
\<close>

type_synonym provider_result = "string + raw_event list option"

definition fetchProcessedEvents ::
  "(string \<Rightarrow> int option) \<Rightarrow> provider_result \<Rightarrow> state \<Rightarrow> (error + event list) \<times> state" where
  "fetchProcessedEvents parse prov s =
     (let s' = s\<lparr>provider_calls := provider_calls s + 1\<rparr>
      in case prov of
           Inl m \<Rightarrow> (Inl (ProviderError m), s')
         | Inr items \<Rightarrow>
             (processEvents parse (case items of Some es \<Rightarrow> es | None \<Rightarrow> []), s'))"

subsection \<open>Read endpoints\<close>

text \<open>
  Each handler takes the \<^verbatim>\<open>X-User-Email\<close> header, the reading of \<^verbatim>\<open>Date.now()\<close>
  and the answer the provider gives if it is called.
\<close>

text \<open>\<^verbatim>\<open>GET /events\<close>.\<close>

definition getEvents ::
  "(string \<Rightarrow> int option) \<Rightarrow> string option \<Rightarrow> int \<Rightarrow> provider_result \<Rightarrow> state
     \<Rightarrow> response \<times> state" where
  "getEvents parse hdr now prov s =
     (case ensureAuthenticated hdr s of
        Inl r \<Rightarrow> (r, s)
      | Inr (e, s1) \<Rightarrow>
          (case (case cache s1 e of
                   None \<Rightarrow> None
                 | Some c \<Rightarrow> if unexpired c now then events c else None) of
             Some evs \<Rightarrow> (Response 200 (EventsJson evs), s1)
           | None \<Rightarrow>
               (case fetchProcessedEvents parse prov s1 of
                  (Inl err, s2) \<Rightarrow>
                    (Response 500 (ErrorJson ''Failed to fetch events'' (Some (message err))), s2)
                | (Inr evs, s2) \<Rightarrow>
                    (Response 200 (EventsJson evs),
                     s2\<lparr>cache := (cache s2)(e \<mapsto>
                           (entry_or_empty s2 e)\<lparr>events := Some evs,
                                                   expiry := Some (now + CACHE_TTL_MS)\<rparr>)\<rparr>))))"

text \<open>\<^verbatim>\<open>sum + e.durationMinutes\<close>, where either side may be \<^verbatim>\<open>NaN\<close>.\<close>

definition js_add :: "int option \<Rightarrow> int option \<Rightarrow> int option" where
  "js_add a b = (case a of None \<Rightarrow> None | Some x \<Rightarrow> (case b of None \<Rightarrow> None | Some y \<Rightarrow> Some (x + y)))"

text \<open>The summary object computed in \<^verbatim>\<open>GET /events/summary\<close>.\<close>

definition buildSummary :: "event list \<Rightarrow> summary" where
  "buildSummary evs =
     (if length evs = 0 then
        \<lparr>totalEvents = 0, totalHours = Some 0, firstEventStart = None, lastEventEnd = None\<rparr>
      else
        \<lparr>totalEvents = length evs,
         totalHours =
           (case foldl (\<lambda>sum e. js_add sum (durationMinutes e)) (Some 0) evs of
              None \<Rightarrow> None
            | Some m \<Rightarrow> Some (of_int m / 60)),
         firstEventStart = ev_start (evs ! 0),
         lastEventEnd = ev_end (evs ! (length evs - 1))\<rparr>)"

text \<open>\<^verbatim>\<open>GET /events/summary\<close>.\<close>

definition getSummary ::
  "(string \<Rightarrow> int option) \<Rightarrow> string option \<Rightarrow> int \<Rightarrow> provider_result \<Rightarrow> state
     \<Rightarrow> response \<times> state" where
  "getSummary parse hdr now prov s =
     (case ensureAuthenticated hdr s of
        Inl r \<Rightarrow> (r, s)
      | Inr (e, s1) \<Rightarrow>
          (case (case cache s1 e of
                   None \<Rightarrow> None
                 | Some c \<Rightarrow> if unexpired c now then summary c else None) of
             Some sm \<Rightarrow> (Response 200 (SummaryJson sm), s1)
           | None \<Rightarrow>
               (case fetchProcessedEvents parse prov s1 of
                  (Inl err, s2) \<Rightarrow>
                    (Response 500 (ErrorJson ''Failed to fetch summary'' (Some (message err))), s2)
                | (Inr evs, s2) \<Rightarrow>
                    (let sm = buildSummary evs
                     in (Response 200 (SummaryJson sm),
                         s2\<lparr>cache := (cache s2)(e \<mapsto>
                               (entry_or_empty s2 e)\<lparr>summary := Some sm,
                                                       expiry := Some (now + CACHE_TTL_MS)\<rparr>)\<rparr>)))))"

text \<open>\<^verbatim>\<open>GET /events/:id\<close>; \<open>rid\<close> is \<^verbatim>\<open>req.params.id\<close>.\<close>

definition getEventById ::
  "(string \<Rightarrow> int option) \<Rightarrow> string \<Rightarrow> string option \<Rightarrow> provider_result \<Rightarrow> state
     \<Rightarrow> response \<times> state" where
  "getEventById parse rid hdr prov s =
     (case ensureAuthenticated hdr s of
        Inl r \<Rightarrow> (r, s)
      | Inr (e, s1) \<Rightarrow>
          (case fetchProcessedEvents parse prov s1 of
             (Inl err, s2) \<Rightarrow>
               (Response 500 (ErrorJson ''Failed to fetch event'' (Some (message err))), s2)
           | (Inr evs, s2) \<Rightarrow>
               (case List.find (\<lambda>ev. ev_id ev = Some rid) evs of
                  None \<Rightarrow> (Response 404 (ErrorJson ''Event not found'' None), s2)
                | Some ev \<Rightarrow> (Response 200 (EventJson ev), s2))))"

text \<open>The three read endpoints behind one dispatcher.\<close>

datatype endpoint = Events | Summary | EventById string

fun handle ::
  "(string \<Rightarrow> int option) \<Rightarrow> endpoint \<Rightarrow> string option \<Rightarrow> int \<Rightarrow> provider_result \<Rightarrow> state
     \<Rightarrow> response \<times> state" where
  "handle parse Events hdr now prov s = getEvents parse hdr now prov s"
| "handle parse Summary hdr now prov s = getSummary parse hdr now prov s"
| "handle parse (EventById rid) hdr now prov s = getEventById parse rid hdr prov s"

subsection \<open>OAuth callback\<close>

text \<open>
  The calls of the callback that leave the process: the code exchange, the verification
  of the identity token (\<open>Inr\<close> of \<^verbatim>\<open>payload.email\<close>), the user-info endpoint called
  with the credentials set on the client (\<open>Inr\<close> of \<^verbatim>\<open>data.email\<close>) and the token
  introspection (\<open>Inr\<close> of \<^verbatim>\<open>tokenInfo.email\<close>).  \<open>Inl m\<close> is an exception with
  message \<open>m\<close>.
\<close>

record oauth_provider =
  getToken :: "string \<Rightarrow> string + tokens"
  verifyIdToken :: "string \<Rightarrow> string + string option"
  userinfo_get :: "tokens \<Rightarrow> string + string option"
  getTokenInfo :: "string \<Rightarrow> string + string option"

datatype id_method = IdToken | UserInfo | TokenInfo

text \<open>
  The three \<^verbatim>\<open>if\<close> blocks after \<^verbatim>\<open>let email = null\<close>.  Each takes the value of
  \<^verbatim>\<open>email\<close> and the list of the identity methods called so far and returns both updated; a
  \<^verbatim>\<open>catch\<close> leaves \<^verbatim>\<open>email\<close> as it was.
\<close>

definition tryIdToken :: "oauth_provider \<Rightarrow> tokens \<Rightarrow> string option \<times> id_method list
    \<Rightarrow> string option \<times> id_method list" where
  "tryIdToken P t = (\<lambda>(em, log).
     if truthy (id_token t) then
       (case verifyIdToken P (the (id_token t)) of
          Inl m \<Rightarrow> (em, log @ [IdToken])
        | Inr v \<Rightarrow> (v, log @ [IdToken]))
     else (em, log))"

definition tryUserInfo :: "oauth_provider \<Rightarrow> tokens \<Rightarrow> string option \<times> id_method list
    \<Rightarrow> string option \<times> id_method list" where
  "tryUserInfo P t = (\<lambda>(em, log).
     if \<not> truthy em \<and> truthy (access_token t) then
       (case userinfo_get P t of
          Inl m \<Rightarrow> (em, log @ [UserInfo])
        | Inr v \<Rightarrow> (v, log @ [UserInfo]))
     else (em, log))"

definition tryTokenInfo :: "oauth_provider \<Rightarrow> tokens \<Rightarrow> string option \<times> id_method list
    \<Rightarrow> string option \<times> id_method list" where
  "tryTokenInfo P t = (\<lambda>(em, log).
     if \<not> truthy em \<and> truthy (access_token t) then
       (case getTokenInfo P (the (access_token t)) of
          Inl m \<Rightarrow> (em, log @ [TokenInfo])
        | Inr v \<Rightarrow> (v, log @ [TokenInfo]))
     else (em, log))"

definition resolveEmail :: "oauth_provider \<Rightarrow> tokens \<Rightarrow> string option \<times> id_method list" where
  "resolveEmail P t = tryTokenInfo P t (tryUserInfo P t (tryIdToken P t (None, [])))"

text \<open>
  \<^verbatim>\<open>GET /oauth2callback\<close>; \<open>code\<close> is \<^verbatim>\<open>req.query.code\<close>.  The result is the response,
  the new state and the identity methods that were called.
\<close>

definition oauth2callback ::
  "oauth_provider \<Rightarrow> string option \<Rightarrow> state \<Rightarrow> response \<times> state \<times> id_method list" where
  "oauth2callback P code s =
     (if \<not> truthy code then (Response 400 (Text ''No code provided''), s, [])
      else
        (case getToken P (the code) of
           Inl m \<Rightarrow> (Response 500 (Text (''Error retrieving access token: '' @ m)), s, [])
         | Inr t \<Rightarrow>
             (let s1 = s\<lparr>credentials := Some t\<rparr>;
                  (em, log) = resolveEmail P t
              in if \<not> truthy em then
                   (Response 400
                      (Text ''Could not get user email from any method. Please check OAuth2 scopes.''),
                    s1, log)
                 else
                   (Response 200
                      (Text (''Authentication successful for '' @ the em @
                             ''! Use your email in the X-User-Email header for API requests.'')),
                    invalidateCache (the em) (saveUser (the em) t s1), log))))"

subsection \<open>Sequences of read requests\<close>

text \<open>A read request: endpoint, header, clock reading and the provider's answer if asked.\<close>

type_synonym read_request = "endpoint \<times> string option \<times> int \<times> provider_result"

fun run :: "(string \<Rightarrow> int option) \<Rightarrow> read_request list \<Rightarrow> state \<Rightarrow> state" where
  "run parse [] s = s"
| "run parse ((ep, hdr, now, prov) # rs) s = run parse rs (snd (handle parse ep hdr now prov s))"

subsection \<open>Vocabulary of the specification\<close>

text \<open>
  The definitions of this subsection do not embed code: they spell out the words of
  the specification, to be compared with the embedding.
\<close>

text \<open>The request names a user that holds stored credentials.\<close>

definition authenticated :: "state \<Rightarrow> string \<Rightarrow> bool" where
  "authenticated s e =
     (e \<noteq> [] \<and> (case getUser e s of None \<Rightarrow> False | Some u \<Rightarrow> tokens u \<noteq> None))"

text \<open>``An entry is valid only while \<open>now < expiry\<close>''.\<close>

definition fresh :: "state \<Rightarrow> string \<Rightarrow> int \<Rightarrow> bool" where
  "fresh s e now = (case cache s e of None \<Rightarrow> False | Some c \<Rightarrow> unexpired c now)"

text \<open>
  ``\<open>get(email, kind)\<close> returns the cached value iff present and \<open>now < entry.expiry\<close>'';
  the single-event endpoint has no cached kind.
\<close>

fun hit :: "endpoint \<Rightarrow> state \<Rightarrow> string \<Rightarrow> int \<Rightarrow> bool" where
  "hit Events s e now = (fresh s e now \<and> (case cache s e of None \<Rightarrow> False | Some c \<Rightarrow> events c \<noteq> None))"
| "hit Summary s e now = (fresh s e now \<and> (case cache s e of None \<Rightarrow> False | Some c \<Rightarrow> summary c \<noteq> None))"
| "hit (EventById rid) s e now = False"

text \<open>
  The start or end timestamp of a raw event, the timed \<^verbatim>\<open>dateTime\<close> preferred over the
  all-day \<^verbatim>\<open>date\<close>; \<open>None\<close> when the event has none (an empty string counts as none).
\<close>

definition timestamp :: "event_time option \<Rightarrow> string option" where
  "timestamp t =
     (case t of
        None \<Rightarrow> None
      | Some x \<Rightarrow>
          if truthy (dateTime x) then dateTime x
          else if truthy (date x) then date x
          else None)"

text \<open>``Cancelled or malformed (missing start/end)''.\<close>

definition excluded :: "raw_event \<Rightarrow> bool" where
  "excluded e =
     (raw_status e = Some ''cancelled'' \<or> timestamp (raw_start e) = None \<or>
      timestamp (raw_end e) = None)"

text \<open>\<open>round((end - start) / 60000)\<close>, not a number when a timestamp does not parse.\<close>

definition minutes_between :: "(string \<Rightarrow> int option) \<Rightarrow> string option \<Rightarrow> string option \<Rightarrow> int option" where
  "minutes_between parse st en =
     (case (new_Date parse st, new_Date parse en) of
        (Some a, Some b) \<Rightarrow> Some (round (of_int (b - a) / 60000 :: rat))
      | _ \<Rightarrow> None)"

text \<open>The payload that an entry holds for an endpoint.\<close>

fun cached_body :: "endpoint \<Rightarrow> cache_entry \<Rightarrow> body option" where
  "cached_body Events c = map_option EventsJson (events c)"
| "cached_body Summary c = map_option SummaryJson (summary c)"
| "cached_body (EventById rid) c = None"

text \<open>The user's entry holds payload \<open>b\<close> for the endpoint and expires at \<open>X\<close> or later.\<close>

definition holds_until :: "endpoint \<Rightarrow> string \<Rightarrow> body \<Rightarrow> int \<Rightarrow> state \<Rightarrow> bool" where
  "holds_until ep e b X s =
     (case cache s e of
        None \<Rightarrow> False
      | Some c \<Rightarrow> cached_body ep c = Some b \<and> (case expiry c of None \<Rightarrow> False | Some x \<Rightarrow> X \<le> x))"


text \<open>
  What each identity method recovers: the e-mail, or \<open>None\<close> when the token it needs is
  absent, the call fails, or the answer carries no (or an empty) e-mail.
\<close>

definition truthy_email :: "string + string option \<Rightarrow> string option" where
  "truthy_email r = (case r of Inl m \<Rightarrow> None | Inr v \<Rightarrow> if truthy v then v else None)"

definition idTokenEmail :: "oauth_provider \<Rightarrow> tokens \<Rightarrow> string option" where
  "idTokenEmail P t =
     (if truthy (id_token t) then truthy_email (verifyIdToken P (the (id_token t))) else None)"

definition userInfoEmail :: "oauth_provider \<Rightarrow> tokens \<Rightarrow> string option" where
  "userInfoEmail P t =
     (if truthy (access_token t) then truthy_email (userinfo_get P t) else None)"

definition tokenInfoEmail :: "oauth_provider \<Rightarrow> tokens \<Rightarrow> string option" where
  "tokenInfoEmail P t =
     (if truthy (access_token t) then truthy_email (getTokenInfo P (the (access_token t))) else None)"

text \<open>The ordered fallback chain of the specification.\<close>

definition fallback_chain :: "oauth_provider \<Rightarrow> tokens \<Rightarrow> string option \<times> id_method list" where
  "fallback_chain P t =
     (case idTokenEmail P t of
        Some e \<Rightarrow> (Some e, [IdToken])
      | None \<Rightarrow>
          (let log1 = (if truthy (id_token t) then [IdToken] else [])
           in if \<not> truthy (access_token t) then (None, log1)
              else (case userInfoEmail P t of
                      Some e \<Rightarrow> (Some e, log1 @ [UserInfo])
                    | None \<Rightarrow> (tokenInfoEmail P t, log1 @ [UserInfo, TokenInfo]))))"

subsection \<open>Concrete inputs\<close>

text \<open>A small store, a date parser on four strings and four raw events, used to run the model.\<close>

definition ex_tokens :: tokens where
  "ex_tokens = \<lparr>access_token = Some ''at-1'', id_token = None, refresh_token = None\<rparr>"

definition ex_tokens2 :: tokens where
  "ex_tokens2 = \<lparr>access_token = Some ''at-2'', id_token = Some ''idt-2'', refresh_token = Some ''rt-2''\<rparr>"

definition ex_users :: "user list" where
  "ex_users = [\<lparr>email = ''ann@example.com'', tokens = Some ex_tokens\<rparr>,
               \<lparr>email = ''bob@example.com'', tokens = None\<rparr>]"

definition ex_state :: state where
  "ex_state = \<lparr>users = ex_users, cache = Map.empty, credentials = None, provider_calls = 0\<rparr>"

definition ex_parse :: "string \<Rightarrow> int option" where
  "ex_parse s =
     (if s = ''2025-07-25T15:00:00Z'' then Some 1753455600000
      else if s = ''2025-07-25T16:30:30Z'' then Some 1753461030000
      else if s = ''2025-07-26'' then Some 1753488000000
      else if s = ''2025-07-27'' then Some 1753574400000
      else None)"

definition ex_timed :: raw_event where
  "ex_timed =
     \<lparr>raw_id = Some ''ev1'', raw_status = Some ''confirmed'',
      raw_start = Some \<lparr>dateTime = Some ''2025-07-25T15:00:00Z'', date = Some ''2025-07-26''\<rparr>,
      raw_end = Some \<lparr>dateTime = Some ''2025-07-25T16:30:30Z'', date = None\<rparr>,
      raw_summary = Some ''Meeting with John'', raw_location = None,
      raw_attendees = Some [Attendee (Some ''john@example.com''), Attendee None]\<rparr>"

definition ex_allday :: raw_event where
  "ex_allday =
     \<lparr>raw_id = Some ''ev2'', raw_status = None,
      raw_start = Some \<lparr>dateTime = None, date = Some ''2025-07-26''\<rparr>,
      raw_end = Some \<lparr>dateTime = None, date = Some ''2025-07-27''\<rparr>,
      raw_summary = None, raw_location = Some ''Lisbon'', raw_attendees = None\<rparr>"

definition ex_cancelled :: raw_event where
  "ex_cancelled = ex_timed\<lparr>raw_id := Some ''ev3'', raw_status := Some ''cancelled''\<rparr>"

definition ex_no_end :: raw_event where
  "ex_no_end = ex_allday\<lparr>raw_id := Some ''ev4'', raw_end := None\<rparr>"

definition ex_items :: "raw_event list" where
  "ex_items = [ex_timed, ex_cancelled, ex_allday, ex_no_end]"

definition ex_events :: "event list" where
  "ex_events =
     [\<lparr>ev_id = Some ''ev1'', title = ''Meeting with John'',
       ev_start = Some ''2025-07-25T15:00:00Z'', ev_end = Some ''2025-07-25T16:30:30Z'',
       durationMinutes = Some 91, location = [],
       attendees = [Some ''john@example.com'', None]\<rparr>,
      \<lparr>ev_id = Some ''ev2'', title = ''No Title'',
       ev_start = Some ''2025-07-26'', ev_end = Some ''2025-07-27'',
       durationMinutes = Some 1440, location = ''Lisbon'', attendees = []\<rparr>]"

text \<open>The state after ann's first \<^verbatim>\<open>GET /events\<close> at time 1000.\<close>

definition ex_state1 :: state where
  "ex_state1 = snd (getEvents ex_parse (Some ''ann@example.com'') 1000 (Inr (Some ex_items)) ex_state)"

definition ex_oauth_fail :: oauth_provider where
  "ex_oauth_fail =
     \<lparr>getToken = (\<lambda>c. if c = ''code-2'' then Inr ex_tokens2 else Inl ''invalid_grant''),
      verifyIdToken = (\<lambda>t. Inl ''Wrong recipient''),
      userinfo_get = (\<lambda>t. Inr None),
      getTokenInfo = (\<lambda>t. Inr (Some []))\<rparr>"

definition ex_oauth_ok :: oauth_provider where
  "ex_oauth_ok = ex_oauth_fail\<lparr>getTokenInfo := (\<lambda>t. Inr (Some ''bob@example.com''))\<rparr>"


definition ex_between :: "read_request list" where
  "ex_between =
     [(Summary, Some ''ann@example.com'', 30000, Inr None),
      (Events, Some ''bob@example.com'', 40000, Inr (Some ex_items)),
      (EventById ''ev1'', Some ''ann@example.com'', 50000, Inl ''backend error'')]"

section \<open>Properties\<close>

subsection \<open>The user store\<close>

lemma upsert_absent:
  "e \<notin> email ` set us \<Longrightarrow> upsert e t us = us @ [\<lparr>email = e, tokens = Some t\<rparr>]"
  by (induction us) auto

lemma upsert_length_present: "e \<in> email ` set us \<Longrightarrow> length (upsert e t us) = length us"
  by (induction us) auto

lemma upsert_map_email: "e \<in> email ` set us \<Longrightarrow> map email (upsert e t us) = map email us"
  by (induction us) auto

lemma upsert_nth:
  "distinct (map email us) \<Longrightarrow> i < length us \<Longrightarrow>
   upsert e t us ! i = (if email (us ! i) = e then (us ! i)\<lparr>tokens := Some t\<rparr> else us ! i)"
proof (induction us arbitrary: i)
  case Nil
  then show ?case by simp
next
  case (Cons u us)
  show ?case
  proof (cases "email u = e")
    case True
    show ?thesis
    proof (cases i)
      case 0
      with True show ?thesis by simp
    next
      case (Suc j)
      with Cons.prems have "us ! j \<in> set us" by simp
      then have "email (us ! j) \<in> email ` set us" by (rule imageI)
      moreover from Cons.prems True have "e \<notin> email ` set us" by simp
      ultimately have "email (us ! j) \<noteq> e" by metis
      with True Suc show ?thesis by simp
    qed
  next
    case False
    with Cons show ?thesis
      by (cases i) auto
  qed
qed

lemma upsert_others:
  "filter (\<lambda>u. email u \<noteq> e) (upsert e t us) = filter (\<lambda>u. email u \<noteq> e) us"
  by (induction us) auto

lemma upsert_distinct: "distinct (map email us) \<Longrightarrow> distinct (map email (upsert e t us))"
  by (cases "e \<in> email ` set us") (auto simp: upsert_map_email upsert_absent)

text \<open>
  Claim C10.  \<^verbatim>\<open>saveUser(email, tokens)\<close> is an upsert.  In a store where every e-mail
  occurs at most once it leaves a store with the same property; when a record for the
  e-mail exists the store keeps its length and every position keeps its record, the
  one for the e-mail with its tokens replaced; when none exists exactly one record is
  appended; the records of the other users are the same, in the same order, and the
  cache is not touched.
\<close>

theorem saveUser_upsert:
  assumes "distinct (map email (users s))"
  shows "distinct (map email (users (saveUser e t s))) \<and>
         (if e \<in> email ` set (users s)
          then length (users (saveUser e t s)) = length (users s) \<and>
               (\<forall>i < length (users s).
                  users (saveUser e t s) ! i =
                    (if email (users s ! i) = e then (users s ! i)\<lparr>tokens := Some t\<rparr>
                     else users s ! i))
          else users (saveUser e t s) = users s @ [\<lparr>email = e, tokens = Some t\<rparr>]) \<and>
         filter (\<lambda>u. email u \<noteq> e) (users (saveUser e t s)) =
           filter (\<lambda>u. email u \<noteq> e) (users s) \<and>
         cache (saveUser e t s) = cache s"
  using assms
  by (simp add: saveUser_def upsert_distinct upsert_absent upsert_length_present upsert_nth
        upsert_others)

theorem saveUser_upsert_witness:
  "distinct (map email (users ex_state)) \<and>
   users (saveUser ''bob@example.com'' ex_tokens2 ex_state) =
     [\<lparr>email = ''ann@example.com'', tokens = Some ex_tokens\<rparr>,
      \<lparr>email = ''bob@example.com'', tokens = Some ex_tokens2\<rparr>] \<and>
   users (saveUser ''cy@example.com'' ex_tokens2 ex_state) =
     users ex_state @ [\<lparr>email = ''cy@example.com'', tokens = Some ex_tokens2\<rparr>]"
proof -
  have h: "distinct (map email (users ex_state))"
    by (simp add: ex_state_def ex_users_def)
  show ?thesis
    using h saveUser_upsert [OF h, of "''bob@example.com''" ex_tokens2]
      saveUser_upsert [OF h, of "''cy@example.com''" ex_tokens2]
    by (simp add: saveUser_def ex_state_def ex_users_def)
qed

subsection \<open>The authentication middleware\<close>

lemma ensure_400:
  "ensureAuthenticated None s = Inl (Response 400 (Text ''Missing X-User-Email header''))"
  "ensureAuthenticated (Some []) s = Inl (Response 400 (Text ''Missing X-User-Email header''))"
  by (simp_all add: ensureAuthenticated_def)

lemma ensure_401:
  "e \<noteq> [] \<Longrightarrow> (case getUser e s of None \<Rightarrow> True | Some u \<Rightarrow> tokens u = None) \<Longrightarrow>
   ensureAuthenticated (Some e) s =
     Inl (Response 401 (Text ''Not authenticated. Go to /auth to login.''))"
  by (auto simp: ensureAuthenticated_def split: option.splits)

lemma ensure_ok:
  "e \<noteq> [] \<Longrightarrow> getUser e s = Some u \<Longrightarrow> tokens u = Some t \<Longrightarrow>
   ensureAuthenticated (Some e) s = Inr (e, s\<lparr>credentials := Some t\<rparr>)"
  by (simp add: ensureAuthenticated_def)

lemma handle_rejected:
  "ensureAuthenticated hdr s = Inl r \<Longrightarrow> handle parse ep hdr now prov s = (r, s)"
  by (cases ep) (simp_all add: getEvents_def getSummary_def getEventById_def)

text \<open>
  Claim C7.  On each of the three read endpoints a request without the
  \<^verbatim>\<open>X-User-Email\<close> header (or with an empty one) is answered 400, and a request whose
  header names a user that the store does not hold, or holds without tokens, is
  answered 401; in both cases the state is left as it was.
\<close>

theorem read_endpoints_reject_unidentified:
  "handle parse ep None now prov s = (Response 400 (Text ''Missing X-User-Email header''), s) \<and>
   handle parse ep (Some []) now prov s =
     (Response 400 (Text ''Missing X-User-Email header''), s) \<and>
   (e \<noteq> [] \<and> (case getUser e s of None \<Rightarrow> True | Some u \<Rightarrow> tokens u = None) \<longrightarrow>
      handle parse ep (Some e) now prov s =
        (Response 401 (Text ''Not authenticated. Go to /auth to login.''), s))"
  by (simp add: handle_rejected ensure_400 ensure_401)

theorem read_endpoints_reject_unidentified_witness:
  "status (fst (handle ex_parse Summary (Some ''bob@example.com'') 5 (Inr None) ex_state)) = 401 \<and>
   status (fst (handle ex_parse (EventById ''ev1'') (Some ''zed@example.com'') 5 (Inr None)
                  ex_state)) = 401 \<and>
   status (fst (handle ex_parse Events None 5 (Inr None) ex_state)) = 400"
  using read_endpoints_reject_unidentified
          [of ex_parse Summary 5 "Inr None" ex_state "''bob@example.com''"]
        read_endpoints_reject_unidentified
          [of ex_parse "EventById ''ev1''" 5 "Inr None" ex_state "''zed@example.com''"]
        read_endpoints_reject_unidentified
          [of ex_parse Events 5 "Inr None" ex_state "''bob@example.com''"]
  by (simp add: getUser_def ex_state_def ex_users_def)

subsection \<open>Normalization\<close>

lemma authenticatedE:
  assumes "authenticated s e"
  obtains u t where "e \<noteq> []" "getUser e s = Some u" "tokens u = Some t"
  using assms by (auto simp: authenticated_def split: option.splits)

lemma timestamp_Some [simp]: "timestamp (Some x) = (if truthy (js_or (dateTime x) (date x)) then js_or (dateTime x) (date x) else None)"
  by (simp add: timestamp_def js_or_def)

lemma timestamp_None [simp]: "timestamp None = None"
  by (simp add: timestamp_def)

lemma truthy_not_None: "truthy v \<Longrightarrow> v \<noteq> None"
  by (cases v) (simp_all add: truthy_def)

lemma keep_iff_not_excluded: "keep e \<longleftrightarrow> \<not> excluded e"
proof (cases "raw_start e")
  case None
  then show ?thesis by (simp add: keep_def excluded_def)
next
  case st: (Some st)
  show ?thesis
  proof (cases "raw_end e")
    case None
    with st show ?thesis by (simp add: keep_def excluded_def)
  next
    case (Some en)
    with st show ?thesis by (auto simp: keep_def excluded_def dest: truthy_not_None)
  qed
qed

lemma duration_eq: "duration parse en st = minutes_between parse st en"
  by (simp add: duration_def minutes_between_def Math_round_def round_def split: option.splits)

lemma normalize_kept:
  assumes "keep e"
  shows "\<exists>ev. normalizeEvent parse e = Inr ev \<and> ev_id ev = raw_id e \<and>
           ev_start ev = timestamp (raw_start e) \<and> ev_end ev = timestamp (raw_end e) \<and>
           durationMinutes ev = minutes_between parse (timestamp (raw_start e)) (timestamp (raw_end e))"
proof -
  from assms obtain st en where se: "raw_start e = Some st" "raw_end e = Some en"
    and t: "truthy (js_or (dateTime st) (date st))" "truthy (js_or (dateTime en) (date en))"
    by (auto simp: keep_def split: option.splits)
  then show ?thesis
    by (simp add: normalizeEvent_def Let_def duration_eq)
qed


lemma map_throw_Inr: "\<forall>x \<in> set xs. f x = Inr (g x) \<Longrightarrow> map_throw f xs = Inr (map g xs)"
  by (induction xs) simp_all

lemma processEvents_map:
  "processEvents parse es =
     Inr (map (\<lambda>e. projr (normalizeEvent parse e)) (filter (\<lambda>e. \<not> excluded e) es))"
proof -
  have "\<forall>x \<in> set (filter keep es). normalizeEvent parse x = Inr (projr (normalizeEvent parse x))"
  proof
    fix x assume "x \<in> set (filter keep es)"
    then have "keep x" by simp
    from normalize_kept [OF this, of parse] obtain ev where "normalizeEvent parse x = Inr ev"
      by blast
    then show "normalizeEvent parse x = Inr (projr (normalizeEvent parse x))" by simp
  qed
  then have "map_throw (normalizeEvent parse) (filter keep es) =
      Inr (map (\<lambda>e. projr (normalizeEvent parse e)) (filter keep es))"
    by (rule map_throw_Inr)
  moreover have "filter keep es = filter (\<lambda>e. \<not> excluded e) es"
    by (rule filter_cong) (simp_all add: keep_iff_not_excluded)
  ultimately show ?thesis by (simp add: processEvents_def)
qed

lemma processEvents_total: "\<exists>evs. processEvents parse es = Inr evs"
  by (simp add: processEvents_map)

text \<open>
  Claim C2.  For every list of raw events the normalization does not throw; its
  result holds, in the order of the input, one event for each raw event that is not
  excluded, where an event is excluded when its status is \<^verbatim>\<open>cancelled\<close> or it has no
  start or no end timestamp.  Each event of the result takes its start and end from
  the raw event, the timed \<^verbatim>\<open>dateTime\<close> preferred over the all-day \<^verbatim>\<open>date\<close>, and its
  \<^verbatim>\<open>durationMinutes\<close> is \<open>round((end - start) / 60000)\<close> (not a number when a
  timestamp does not parse as a date).
\<close>

theorem processEvents_filters_and_rounds:
  "\<exists>evs. processEvents parse es = Inr evs \<and>
     length evs = length (filter (\<lambda>e. \<not> excluded e) es) \<and>
     (\<forall>i < length evs.
        ev_id (evs ! i) = raw_id (filter (\<lambda>e. \<not> excluded e) es ! i) \<and>
        ev_start (evs ! i) = timestamp (raw_start (filter (\<lambda>e. \<not> excluded e) es ! i)) \<and>
        ev_end (evs ! i) = timestamp (raw_end (filter (\<lambda>e. \<not> excluded e) es ! i)) \<and>
        durationMinutes (evs ! i) =
          minutes_between parse (ev_start (evs ! i)) (ev_end (evs ! i)))"
proof -
  let ?ks = "filter (\<lambda>e. \<not> excluded e) es"
  let ?evs = "map (\<lambda>e. projr (normalizeEvent parse e)) ?ks"
  have "ev_id (?evs ! i) = raw_id (?ks ! i) \<and>
        ev_start (?evs ! i) = timestamp (raw_start (?ks ! i)) \<and>
        ev_end (?evs ! i) = timestamp (raw_end (?ks ! i)) \<and>
        durationMinutes (?evs ! i) = minutes_between parse (ev_start (?evs ! i)) (ev_end (?evs ! i))"
    if "i < length ?evs" for i
  proof -
    from that have "?ks ! i \<in> set ?ks" by (simp del: set_filter)
    then have "keep (?ks ! i)" by (simp add: keep_iff_not_excluded)
    from normalize_kept [OF this, of parse] that show ?thesis by auto
  qed
  then show ?thesis by (simp add: processEvents_map)
qed

subsection \<open>Fetching and the handlers, case by case\<close>

lemma Math_round_div: "Math_round (of_int d / (1000 * 60)) = (d + 30000) div 60000"
proof -
  have "(of_int d / (1000 * 60) + 1 / 2 :: rat) = of_int (d + 30000) / of_int 60000"
    by (simp add: field_simps)
  then show ?thesis
    unfolding Math_round_def by (simp only: floor_divide_of_int_eq)
qed

lemma fetch_ok:
  "fetchProcessedEvents parse (Inr items) s =
     (processEvents parse (case items of Some es \<Rightarrow> es | None \<Rightarrow> []),
      s\<lparr>provider_calls := provider_calls s + 1\<rparr>)"
  by (simp add: fetchProcessedEvents_def Let_def)

lemma fetch_fail:
  "fetchProcessedEvents parse (Inl m) s =
     (Inl (ProviderError m), s\<lparr>provider_calls := provider_calls s + 1\<rparr>)"
  by (simp add: fetchProcessedEvents_def Let_def)

lemma fetch_cases:
  obtains (fail) m where "prov = Inl m"
      "fetchProcessedEvents parse prov s = (Inl (ProviderError m), s\<lparr>provider_calls := provider_calls s + 1\<rparr>)"
  | (ok) items evs where "prov = Inr items"
      "processEvents parse (case items of Some es \<Rightarrow> es | None \<Rightarrow> []) = Inr evs"
      "fetchProcessedEvents parse prov s = (Inr evs, s\<lparr>provider_calls := provider_calls s + 1\<rparr>)"
proof (cases prov)
  case (Inl m)
  then show ?thesis using fail fetch_fail by simp
next
  case (Inr items)
  obtain evs where "processEvents parse (case items of Some es \<Rightarrow> es | None \<Rightarrow> []) = Inr evs"
    using processEvents_total by blast
  with Inr show ?thesis using ok fetch_ok by simp
qed


lemma getEvents_hit:
  assumes "e \<noteq> []" "getUser e s = Some u" "tokens u = Some t"
    and "cache s e = Some c" "events c = Some evs" "unexpired c now"
  shows "getEvents parse (Some e) now prov s =
           (Response 200 (EventsJson evs), s\<lparr>credentials := Some t\<rparr>)"
  using assms by (simp add: getEvents_def ensure_ok)

lemma getSummary_hit:
  assumes "e \<noteq> []" "getUser e s = Some u" "tokens u = Some t"
    and "cache s e = Some c" "summary c = Some sm" "unexpired c now"
  shows "getSummary parse (Some e) now prov s =
           (Response 200 (SummaryJson sm), s\<lparr>credentials := Some t\<rparr>)"
  using assms by (simp add: getSummary_def ensure_ok)

lemma getEvents_miss:
  assumes "e \<noteq> []" "getUser e s = Some u" "tokens u = Some t"
    and "case cache s e of None \<Rightarrow> True | Some c \<Rightarrow> events c = None \<or> \<not> unexpired c now"
  shows "getEvents parse (Some e) now prov s =
     (case fetchProcessedEvents parse prov (s\<lparr>credentials := Some t\<rparr>) of
        (Inl err, s2) \<Rightarrow>
          (Response 500 (ErrorJson ''Failed to fetch events'' (Some (message err))), s2)
      | (Inr evs, s2) \<Rightarrow>
          (Response 200 (EventsJson evs),
           s2\<lparr>cache := (cache s2)(e \<mapsto>
                 (entry_or_empty s2 e)\<lparr>events := Some evs,
                                         expiry := Some (now + CACHE_TTL_MS)\<rparr>)\<rparr>))"
proof -
  from assms(4) have "(case cache s e of None \<Rightarrow> None
                       | Some c \<Rightarrow> if unexpired c now then events c else None) = None"
    by (auto split: option.splits)
  with assms(1-3) show ?thesis by (simp add: getEvents_def ensure_ok)
qed

lemma getSummary_miss:
  assumes "e \<noteq> []" "getUser e s = Some u" "tokens u = Some t"
    and "case cache s e of None \<Rightarrow> True | Some c \<Rightarrow> summary c = None \<or> \<not> unexpired c now"
  shows "getSummary parse (Some e) now prov s =
     (case fetchProcessedEvents parse prov (s\<lparr>credentials := Some t\<rparr>) of
        (Inl err, s2) \<Rightarrow>
          (Response 500 (ErrorJson ''Failed to fetch summary'' (Some (message err))), s2)
      | (Inr evs, s2) \<Rightarrow>
          (Response 200 (SummaryJson (buildSummary evs)),
           s2\<lparr>cache := (cache s2)(e \<mapsto>
                 (entry_or_empty s2 e)\<lparr>summary := Some (buildSummary evs),
                                         expiry := Some (now + CACHE_TTL_MS)\<rparr>)\<rparr>))"
proof -
  from assms(4) have "(case cache s e of None \<Rightarrow> None
                       | Some c \<Rightarrow> if unexpired c now then summary c else None) = None"
    by (auto split: option.splits)
  with assms(1-3) show ?thesis
    by (simp add: getSummary_def ensure_ok Let_def split: prod.splits sum.splits)
qed

lemma getEventById_auth:
  assumes "e \<noteq> []" "getUser e s = Some u" "tokens u = Some t"
  shows "getEventById parse rid (Some e) prov s =
     (case fetchProcessedEvents parse prov (s\<lparr>credentials := Some t\<rparr>) of
        (Inl err, s2) \<Rightarrow>
          (Response 500 (ErrorJson ''Failed to fetch event'' (Some (message err))), s2)
      | (Inr evs, s2) \<Rightarrow>
          (case List.find (\<lambda>ev. ev_id ev = Some rid) evs of
             None \<Rightarrow> (Response 404 (ErrorJson ''Event not found'' None), s2)
           | Some ev \<Rightarrow> (Response 200 (EventJson ev), s2)))"
  using assms by (simp add: getEventById_def ensure_ok)

lemma getUser_invalidate [simp]: "getUser e (invalidateCache e' s) = getUser e s"
  by (simp add: getUser_def invalidateCache_def)

lemma miss_calls:
  assumes "authenticated s e" "\<not> hit ep s e now"
  shows "provider_calls (snd (handle parse ep (Some e) now prov s)) = provider_calls s + 1"
proof -
  from assms(1) obtain u t where a: "e \<noteq> []" "getUser e s = Some u" "tokens u = Some t"
    by (rule authenticatedE)
  show ?thesis
  proof (cases ep)
    case Events
    with assms(2) have "case cache s e of None \<Rightarrow> True | Some c \<Rightarrow> events c = None \<or> \<not> unexpired c now"
      by (auto simp: fresh_def split: option.splits)
    from getEvents_miss [OF a this] Events show ?thesis
      by (cases rule: fetch_cases [of prov parse "s\<lparr>credentials := Some t\<rparr>"]) simp_all
  next
    case Summary
    with assms(2) have "case cache s e of None \<Rightarrow> True | Some c \<Rightarrow> summary c = None \<or> \<not> unexpired c now"
      by (auto simp: fresh_def split: option.splits)
    from getSummary_miss [OF a this] Summary show ?thesis
      by (cases rule: fetch_cases [of prov parse "s\<lparr>credentials := Some t\<rparr>"]) simp_all
  next
    case (EventById rid)
    from getEventById_auth [OF a] EventById show ?thesis
      by (cases rule: fetch_cases [of prov parse "s\<lparr>credentials := Some t\<rparr>"])
        (simp_all split: option.splits)
  qed
qed

lemma authenticated_invalidate: "authenticated (invalidateCache e' s) e = authenticated s e"
  by (simp add: authenticated_def)

lemma not_hit_invalidate: "\<not> hit ep (invalidateCache e s) e now"
  by (cases ep) (simp_all add: invalidateCache_def)

text \<open>
  Claim C6.  \<^verbatim>\<open>invalidateCache(email)\<close> sets the user's entry to no events, no summary
  and expiry 0; a request of that user to any of the read endpoints that comes next
  calls the provider, whatever the clock reads.
\<close>

theorem invalidate_forces_provider_call:
  assumes "authenticated s e"
  shows "cache (invalidateCache e s) e = Some \<lparr>events = None, summary = None, expiry = Some 0\<rparr> \<and>
         provider_calls (snd (handle parse ep (Some e) now prov (invalidateCache e s))) =
           provider_calls s + 1"
proof -
  have "provider_calls (invalidateCache e s) = provider_calls s"
    by (simp add: invalidateCache_def)
  with miss_calls [of "invalidateCache e s" e ep now parse prov] assms
  show ?thesis
    by (simp add: authenticated_invalidate not_hit_invalidate) (simp add: invalidateCache_def)
qed

lemma rejected_or_authenticated:
  obtains (rejected) r where "ensureAuthenticated hdr s = Inl r"
  | (accepted) e where "hdr = Some e" "authenticated s e"
proof (cases "ensureAuthenticated hdr s")
  case (Inl r)
  then show ?thesis by (rule rejected)
next
  case (Inr p)
  then obtain e where "hdr = Some e" "authenticated s e"
    by (auto simp: ensureAuthenticated_def authenticated_def split: option.splits if_splits)
  then show ?thesis by (rule accepted)
qed

lemma hit_state:
  assumes "authenticated s e" "hit ep s e now"
  shows "\<exists>t. snd (handle parse ep (Some e) now prov s) = s\<lparr>credentials := Some t\<rparr> \<and>
             getUser e s \<noteq> None \<and> tokens (the (getUser e s)) = Some t"
proof -
  from assms(1) obtain u t where a: "e \<noteq> []" "getUser e s = Some u" "tokens u = Some t"
    by (rule authenticatedE)
  show ?thesis
  proof (cases ep)
    case Events
    with assms(2) obtain c evs where "cache s e = Some c" "events c = Some evs" "unexpired c now"
      by (auto simp: fresh_def split: option.splits)
    from getEvents_hit [OF a this] Events a show ?thesis by simp
  next
    case Summary
    with assms(2) obtain c sm where "cache s e = Some c" "summary c = Some sm" "unexpired c now"
      by (auto simp: fresh_def split: option.splits)
    from getSummary_hit [OF a this] Summary a show ?thesis by simp
  next
    case (EventById rid)
    with assms(2) show ?thesis by simp
  qed
qed

lemma provider_failure_cache:
  "cache (snd (handle parse ep hdr now (Inl m) s)) = cache s"
proof (cases rule: rejected_or_authenticated [of hdr s])
  case (rejected r)
  then show ?thesis by (simp add: handle_rejected)
next
  case (accepted e)
  from accepted(2) obtain u t where a: "e \<noteq> []" "getUser e s = Some u" "tokens u = Some t"
    by (rule authenticatedE)
  show ?thesis
  proof (cases "hit ep s e now")
    case True
    from hit_state [OF accepted(2) True, of parse "Inl m"] accepted(1) show ?thesis by auto
  next
    case False
    show ?thesis
    proof (cases ep)
      case Events
      with False have "case cache s e of None \<Rightarrow> True | Some c \<Rightarrow> events c = None \<or> \<not> unexpired c now"
        by (auto simp: fresh_def split: option.splits)
      from getEvents_miss [OF a this] Events accepted(1) show ?thesis
        by (simp add: fetch_fail)
    next
      case Summary
      with False have "case cache s e of None \<Rightarrow> True | Some c \<Rightarrow> summary c = None \<or> \<not> unexpired c now"
        by (auto simp: fresh_def split: option.splits)
      from getSummary_miss [OF a this] Summary accepted(1) show ?thesis
        by (simp add: fetch_fail)
    next
      case (EventById rid)
      from getEventById_auth [OF a] EventById accepted(1) show ?thesis
        by (simp add: fetch_fail)
    qed
  qed
qed

lemma provider_failure_500:
  assumes "provider_calls (snd (handle parse ep hdr now (Inl m) s)) \<noteq> provider_calls s"
  shows "fst (handle parse ep hdr now (Inl m) s) =
           Response 500 (ErrorJson (case ep of Events \<Rightarrow> ''Failed to fetch events''
                                    | Summary \<Rightarrow> ''Failed to fetch summary''
                                    | EventById rid \<Rightarrow> ''Failed to fetch event'') (Some m))"
proof (cases rule: rejected_or_authenticated [of hdr s])
  case (rejected r)
  with assms show ?thesis by (simp add: handle_rejected)
next
  case (accepted e)
  from accepted(2) obtain u t where a: "e \<noteq> []" "getUser e s = Some u" "tokens u = Some t"
    by (rule authenticatedE)
  show ?thesis
  proof (cases "hit ep s e now")
    case True
    from hit_state [OF accepted(2) True, of parse "Inl m"] accepted(1) assms show ?thesis by auto
  next
    case False
    show ?thesis
    proof (cases ep)
      case Events
      with False have "case cache s e of None \<Rightarrow> True | Some c \<Rightarrow> events c = None \<or> \<not> unexpired c now"
        by (auto simp: fresh_def split: option.splits)
      from getEvents_miss [OF a this] Events accepted(1) show ?thesis
        by (simp add: fetch_fail)
    next
      case Summary
      with False have "case cache s e of None \<Rightarrow> True | Some c \<Rightarrow> summary c = None \<or> \<not> unexpired c now"
        by (auto simp: fresh_def split: option.splits)
      from getSummary_miss [OF a this] Summary accepted(1) show ?thesis
        by (simp add: fetch_fail)
    next
      case (EventById rid)
      from getEventById_auth [OF a] EventById accepted(1) show ?thesis
        by (simp add: fetch_fail)
    qed
  qed
qed

text \<open>
  Claim C9.  When the provider call of \<^verbatim>\<open>GET /events\<close> or \<^verbatim>\<open>GET /events/summary\<close>
  fails, the cache is left exactly as it was; whenever the handler did call the
  provider it answers 500 with the provider's message, and it does call the provider
  for an authenticated user whose request is not a cache hit.
\<close>

theorem provider_failure_leaves_cache:
  "(ep = Events \<or> ep = Summary) \<longrightarrow>
   cache (snd (handle parse ep hdr now (Inl m) s)) = cache s \<and>
   (provider_calls (snd (handle parse ep hdr now (Inl m) s)) \<noteq> provider_calls s \<longrightarrow>
      status (fst (handle parse ep hdr now (Inl m) s)) = 500 \<and>
      body (fst (handle parse ep hdr now (Inl m) s)) =
        ErrorJson (if ep = Events then ''Failed to fetch events'' else ''Failed to fetch summary'')
          (Some m)) \<and>
   (hdr = Some e \<and> authenticated s e \<and> \<not> hit ep s e now \<longrightarrow>
      status (fst (handle parse ep hdr now (Inl m) s)) = 500)"
  using provider_failure_cache [of parse ep hdr now m s]
    provider_failure_500 [of parse ep hdr now m s]
    miss_calls [of s e ep now parse "Inl m"]
  by auto

lemma getUser_simps [simp]:
  "getUser e (s\<lparr>credentials := cr\<rparr>) = getUser e s"
  "getUser e (s\<lparr>cache := ca\<rparr>) = getUser e s"
  "getUser e (s\<lparr>provider_calls := n\<rparr>) = getUser e s"
  by (simp_all add: getUser_def)

text \<open>
  Claim C8.  A successful \<^verbatim>\<open>GET /events/summary\<close> on a cache miss, for a user whose
  entry holds an events list (expired or not), writes the summary and the expiry
  \<open>now + 60000\<close> into the entry and nothing else: the events list stays.  Every
  \<^verbatim>\<open>GET /events\<close> of that user less than 60 seconds later returns that old list
  and leaves the state, the count of provider calls included, as it is.
\<close>

theorem summary_miss_keeps_events:
  assumes auth: "authenticated s e"
    and entry: "cache s e = Some c" "events c = Some evs"
    and miss: "\<not> hit Summary s e now1"
  shows "\<exists>sm t. handle parse Summary (Some e) now1 (Inr items) s =
           (Response 200 (SummaryJson sm),
            s\<lparr>credentials := Some t, provider_calls := provider_calls s + 1,
              cache := (cache s)(e \<mapsto> c\<lparr>summary := Some sm, expiry := Some (now1 + 60000)\<rparr>)\<rparr>) \<and>
         (\<forall>now2 prov2. now2 < now1 + 60000 \<longrightarrow>
            handle parse Events (Some e) now2 prov2
              (snd (handle parse Summary (Some e) now1 (Inr items) s)) =
            (Response 200 (EventsJson evs), snd (handle parse Summary (Some e) now1 (Inr items) s)))"
proof -
  from auth obtain u t where a: "e \<noteq> []" "getUser e s = Some u" "tokens u = Some t"
    by (rule authenticatedE)
  obtain es where es: "processEvents parse (case items of Some es \<Rightarrow> es | None \<Rightarrow> []) = Inr es"
    using processEvents_total by blast
  let ?c' = "c\<lparr>summary := Some (buildSummary es), expiry := Some (now1 + 60000)\<rparr>"
  let ?s1 = "s\<lparr>credentials := Some t, provider_calls := provider_calls s + 1,
              cache := (cache s)(e \<mapsto> ?c')\<rparr>"
  from miss entry have "case cache s e of None \<Rightarrow> True | Some c \<Rightarrow> summary c = None \<or> \<not> unexpired c now1"
    by (auto simp: fresh_def)
  from getSummary_miss [OF a this, of parse "Inr items"] es entry
  have 1: "handle parse Summary (Some e) now1 (Inr items) s = (Response 200 (SummaryJson (buildSummary es)), ?s1)"
    by (simp add: fetch_ok entry_or_empty_def CACHE_TTL_MS_def)
  have 2: "handle parse Events (Some e) now2 prov2 ?s1 = (Response 200 (EventsJson evs), ?s1)"
    if "now2 < now1 + 60000" for now2 prov2
  proof -
    have "getUser e ?s1 = Some u" using a by (simp add: getUser_def)
    moreover have "cache ?s1 e = Some ?c'" by simp
    moreover have "events ?c' = Some evs" using entry by simp
    moreover have "unexpired ?c' now2" using that by (simp add: unexpired_def)
    ultimately have "getEvents parse (Some e) now2 prov2 ?s1 =
        (Response 200 (EventsJson evs), ?s1\<lparr>credentials := Some t\<rparr>)"
      using a by (intro getEvents_hit)
    then show ?thesis by simp
  qed
  from 1 2 show ?thesis by auto
qed

text \<open>
  Claim C5.  \<^verbatim>\<open>GET /events/:id\<close> neither reads nor writes the cache: its response
  is the same whatever the cache holds, and the cache comes out unchanged.  Every
  authenticated request calls the provider once, scans the fresh list for the first
  event with the identifier, and answers 404 when the list has none.
\<close>

theorem getEventById_scans_fresh_list:
  assumes "authenticated s e"
  shows "fst (handle parse (EventById rid) (Some e) now prov (s\<lparr>cache := ca\<rparr>)) =
           fst (handle parse (EventById rid) (Some e) now prov s) \<and>
         cache (snd (handle parse (EventById rid) (Some e) now prov s)) = cache s \<and>
         provider_calls (snd (handle parse (EventById rid) (Some e) now prov s)) =
           provider_calls s + 1 \<and>
         (\<forall>items. prov = Inr items \<longrightarrow>
            (\<exists>evs. processEvents parse (case items of Some es \<Rightarrow> es | None \<Rightarrow> []) = Inr evs \<and>
               fst (handle parse (EventById rid) (Some e) now prov s) =
                 (case List.find (\<lambda>ev. ev_id ev = Some rid) evs of
                    None \<Rightarrow> Response 404 (ErrorJson ''Event not found'' None)
                  | Some ev \<Rightarrow> Response 200 (EventJson ev)) \<and>
               ((\<forall>ev \<in> set evs. ev_id ev \<noteq> Some rid) \<longrightarrow>
                  status (fst (handle parse (EventById rid) (Some e) now prov s)) = 404)))"
proof -
  from assms obtain u t where a: "e \<noteq> []" "getUser e s = Some u" "tokens u = Some t"
    by (rule authenticatedE)
  have a': "getUser e (s\<lparr>cache := ca\<rparr>) = Some u" using a by simp
  show ?thesis
  proof (cases prov)
    case (Inl m)
    with getEventById_auth [OF a, of parse rid prov]
      getEventById_auth [OF a(1) a' a(3), of parse rid prov]
    show ?thesis by (simp add: fetch_fail)
  next
    case (Inr items)
    obtain evs where evs: "processEvents parse (case items of Some es \<Rightarrow> es | None \<Rightarrow> []) = Inr evs"
      using processEvents_total by blast
    have "find (\<lambda>ev. ev_id ev = Some rid) evs = None" if "\<forall>ev \<in> set evs. ev_id ev \<noteq> Some rid"
      using that by (simp add: find_None_iff)
    with Inr evs getEventById_auth [OF a, of parse rid prov]
      getEventById_auth [OF a(1) a' a(3), of parse rid prov]
    show ?thesis by (auto simp: fetch_ok split: option.splits)
  qed
qed

subsection \<open>Running the model\<close>

lemma duration_int:
  "duration parse en st =
     (case new_Date parse en of
        None \<Rightarrow> None
      | Some b \<Rightarrow>
          (case new_Date parse st of
             None \<Rightarrow> None
           | Some a \<Rightarrow> Some ((b - a + 30000) div 60000)))"
  using Math_round_div [of "b - a" for a b]
  by (simp add: duration_def split: option.splits)

lemma minutes_between_int:
  "minutes_between parse st en =
     (case new_Date parse en of
        None \<Rightarrow> None
      | Some b \<Rightarrow>
          (case new_Date parse st of
             None \<Rightarrow> None
           | Some a \<Rightarrow> Some ((b - a + 30000) div 60000)))"
  using duration_eq [of parse en st] by (simp add: duration_int)

lemma ex_excluded:
  "\<not> excluded ex_timed" "excluded ex_cancelled" "\<not> excluded ex_allday" "excluded ex_no_end"
  by (simp_all add: excluded_def ex_timed_def ex_cancelled_def ex_allday_def ex_no_end_def
      truthy_def js_or_def)

lemma ex_keep: "filter keep ex_items = [ex_timed, ex_allday]"
  by (simp add: ex_items_def keep_iff_not_excluded ex_excluded)

lemma ex_normalize:
  "normalizeEvent ex_parse ex_timed = Inr (ex_events ! 0)"
  "normalizeEvent ex_parse ex_allday = Inr (ex_events ! 1)"
  by (simp_all add: normalizeEvent_def ex_timed_def ex_allday_def ex_events_def js_or_def
      truthy_def duration_int new_Date_def ex_parse_def)

lemma ex_processed: "processEvents ex_parse ex_items = Inr ex_events"
  by (simp add: processEvents_def ex_keep ex_normalize) (simp add: ex_events_def)

lemma ex_auth: "authenticated ex_state ''ann@example.com''"
  by (simp add: authenticated_def getUser_def ex_state_def ex_users_def)

lemma ex_state1_eq:
  "ex_state1 = \<lparr>users = ex_users,
                 cache = [''ann@example.com'' \<mapsto>
                            \<lparr>events = Some ex_events, summary = None, expiry = Some 61000\<rparr>],
                 credentials = Some ex_tokens, provider_calls = 1\<rparr>"
  by (simp add: ex_state1_def getEvents_def ensureAuthenticated_def getUser_def ex_state_def
      ex_users_def fetch_ok ex_processed entry_or_empty_def CACHE_TTL_MS_def)

lemma ex_auth1: "authenticated ex_state1 ''ann@example.com''"
  by (simp add: authenticated_def getUser_def ex_state1_eq ex_users_def)

theorem processEvents_filters_and_rounds_witness:
  "\<exists>evs. processEvents ex_parse ex_items = Inr evs \<and> length evs = 2 \<and>
     ev_id (evs ! 0) = Some ''ev1'' \<and> ev_start (evs ! 0) = Some ''2025-07-25T15:00:00Z'' \<and>
     durationMinutes (evs ! 0) = Some 91 \<and>
     ev_id (evs ! 1) = Some ''ev2'' \<and> ev_end (evs ! 1) = Some ''2025-07-27'' \<and>
     durationMinutes (evs ! 1) = Some 1440"
proof -
  have ks: "filter (\<lambda>e. \<not> excluded e) ex_items = [ex_timed, ex_allday]"
    by (simp add: ex_items_def ex_excluded)
  from processEvents_filters_and_rounds [of ex_parse ex_items]
  obtain evs where evs: "processEvents ex_parse ex_items = Inr evs" "length evs = 2"
    and each: "\<forall>i < length evs.
        ev_id (evs ! i) = raw_id ([ex_timed, ex_allday] ! i) \<and>
        ev_start (evs ! i) = timestamp (raw_start ([ex_timed, ex_allday] ! i)) \<and>
        ev_end (evs ! i) = timestamp (raw_end ([ex_timed, ex_allday] ! i)) \<and>
        durationMinutes (evs ! i) = minutes_between ex_parse (ev_start (evs ! i)) (ev_end (evs ! i))"
    unfolding ks by auto
  from each evs(2) have
    "ev_id (evs ! 0) = raw_id ex_timed \<and>
     ev_start (evs ! 0) = timestamp (raw_start ex_timed) \<and>
     ev_end (evs ! 0) = timestamp (raw_end ex_timed) \<and>
     durationMinutes (evs ! 0) = minutes_between ex_parse (ev_start (evs ! 0)) (ev_end (evs ! 0))"
    by (metis nth_Cons_0 zero_less_numeral)
  then have 0: "ev_id (evs ! 0) = Some ''ev1'' \<and> ev_start (evs ! 0) = Some ''2025-07-25T15:00:00Z'' \<and>
     durationMinutes (evs ! 0) = Some 91"
    by (simp add: ex_timed_def js_or_def truthy_def minutes_between_int new_Date_def
        ex_parse_def)
  from each evs(2) have
    "ev_id (evs ! 1) = raw_id ([ex_timed, ex_allday] ! 1) \<and>
     ev_start (evs ! 1) = timestamp (raw_start ([ex_timed, ex_allday] ! 1)) \<and>
     ev_end (evs ! 1) = timestamp (raw_end ([ex_timed, ex_allday] ! 1)) \<and>
     durationMinutes (evs ! 1) = minutes_between ex_parse (ev_start (evs ! 1)) (ev_end (evs ! 1))"
    by (metis one_less_numeral_iff semiring_norm(76))
  then have 1: "ev_id (evs ! 1) = Some ''ev2'' \<and> ev_end (evs ! 1) = Some ''2025-07-27'' \<and>
     durationMinutes (evs ! 1) = Some 1440"
    by (simp add: ex_allday_def js_or_def truthy_def minutes_between_int new_Date_def
        ex_parse_def)
  from evs 0 1 show ?thesis by blast
qed

theorem invalidate_forces_provider_call_witness:
  "authenticated ex_state1 ''ann@example.com'' \<and>
   hit Events ex_state1 ''ann@example.com'' 2000 \<and>
   provider_calls
     (snd (handle ex_parse Events (Some ''ann@example.com'') 2000 (Inr None)
             (invalidateCache ''ann@example.com'' ex_state1))) = 2"
proof -
  have "hit Events ex_state1 ''ann@example.com'' 2000"
    by (simp add: ex_state1_eq fresh_def unexpired_def)
  moreover have "provider_calls ex_state1 = 1"
    by (simp add: ex_state1_eq)
  ultimately show ?thesis
    using ex_auth1
      invalidate_forces_provider_call [OF ex_auth1, of ex_parse Events 2000 "Inr None"]
    by simp
qed

theorem provider_failure_leaves_cache_witness:
  "provider_calls (snd (handle ex_parse Summary (Some ''ann@example.com'') 2000 (Inl ''quota'') ex_state1))
     \<noteq> provider_calls ex_state1 \<and>
   status (fst (handle ex_parse Summary (Some ''ann@example.com'') 2000 (Inl ''quota'') ex_state1)) = 500 \<and>
   cache (snd (handle ex_parse Summary (Some ''ann@example.com'') 2000 (Inl ''quota'') ex_state1))
     ''ann@example.com'' = Some \<lparr>events = Some ex_events, summary = None, expiry = Some 61000\<rparr>"
proof -
  have "\<not> hit Summary ex_state1 ''ann@example.com'' 2000"
    by (simp add: ex_state1_eq)
  from miss_calls [OF ex_auth1 this, of ex_parse "Inl ''quota''"]
  have h: "provider_calls (snd (handle ex_parse Summary (Some ''ann@example.com'') 2000 (Inl ''quota'') ex_state1))
     \<noteq> provider_calls ex_state1"
    by simp
  have c: "cache ex_state1 ''ann@example.com'' =
      Some \<lparr>events = Some ex_events, summary = None, expiry = Some 61000\<rparr>"
    by (simp add: ex_state1_eq)
  show ?thesis
    using h c provider_failure_leaves_cache
            [of Summary ex_parse "Some ''ann@example.com''" 2000 "''quota''" ex_state1]
    by simp
qed

theorem summary_miss_keeps_events_witness:
  "authenticated ex_state1 ''ann@example.com'' \<and>
   cache ex_state1 ''ann@example.com'' =
     Some \<lparr>events = Some ex_events, summary = None, expiry = Some 61000\<rparr> \<and>
   \<not> hit Events ex_state1 ''ann@example.com'' 100000 \<and>
   \<not> hit Summary ex_state1 ''ann@example.com'' 100000 \<and>
   fst (handle ex_parse Events (Some ''ann@example.com'') 159999 (Inr None)
          (snd (handle ex_parse Summary (Some ''ann@example.com'') 100000 (Inr None) ex_state1))) =
     Response 200 (EventsJson ex_events)"
proof -
  have c: "cache ex_state1 ''ann@example.com'' =
      Some \<lparr>events = Some ex_events, summary = None, expiry = Some 61000\<rparr>"
    by (simp add: ex_state1_eq)
  have e: "events \<lparr>events = Some ex_events, summary = None, expiry = Some 61000\<rparr> = Some ex_events"
    by simp
  have m: "\<not> hit Summary ex_state1 ''ann@example.com'' 100000"
    by (simp add: ex_state1_eq)
  have m': "\<not> hit Events ex_state1 ''ann@example.com'' 100000"
    by (simp add: ex_state1_eq fresh_def unexpired_def)
  from summary_miss_keeps_events [OF ex_auth1 c e m, of ex_parse None]
  have "handle ex_parse Events (Some ''ann@example.com'') 159999 (Inr None)
          (snd (handle ex_parse Summary (Some ''ann@example.com'') 100000 (Inr None) ex_state1)) =
        (Response 200 (EventsJson ex_events),
         snd (handle ex_parse Summary (Some ''ann@example.com'') 100000 (Inr None) ex_state1))"
    by simp
  with ex_auth1 c m m' show ?thesis by simp
qed

theorem getEventById_scans_fresh_list_witness:
  "authenticated ex_state1 ''ann@example.com'' \<and>
   hit Events ex_state1 ''ann@example.com'' 2000 \<and>
   fst (handle ex_parse (EventById ''ev1'') (Some ''ann@example.com'') 2000 (Inr (Some [ex_allday]))
          ex_state1) = Response 404 (ErrorJson ''Event not found'' None) \<and>
   provider_calls (snd (handle ex_parse (EventById ''ev1'') (Some ''ann@example.com'') 2000
                         (Inr (Some [ex_allday])) ex_state1)) = 2"
proof -
  have h: "hit Events ex_state1 ''ann@example.com'' 2000"
    by (simp add: ex_state1_eq fresh_def unexpired_def)
  have p: "processEvents ex_parse [ex_allday] = Inr [ex_events ! 1]"
    using ex_excluded(3) by (simp add: processEvents_def keep_iff_not_excluded ex_normalize)
  have n: "provider_calls ex_state1 = 1"
    by (simp add: ex_state1_eq)
  from getEventById_scans_fresh_list [OF ex_auth1, of ex_parse "''ev1''" 2000 "Inr (Some [ex_allday])"] p n
  have "fst (handle ex_parse (EventById ''ev1'') (Some ''ann@example.com'') 2000 (Inr (Some [ex_allday]))
          ex_state1) = Response 404 (ErrorJson ''Event not found'' None) \<and>
    provider_calls (snd (handle ex_parse (EventById ''ev1'') (Some ''ann@example.com'') 2000
                         (Inr (Some [ex_allday])) ex_state1)) = 2"
    by (simp add: ex_events_def)
  with ex_auth1 h show ?thesis by simp
qed

subsection \<open>The summary\<close>

lemma js_add_simps:
  "js_add None b = None" "js_add (Some x) None = None" "js_add (Some x) (Some y) = Some (x + y)"
  by (simp_all add: js_add_def)

lemma foldl_js_add_None: "foldl (\<lambda>sum e. js_add sum (durationMinutes e)) None evs = None"
  by (induction evs) (simp_all add: js_add_simps)

lemma foldl_js_add:
  "foldl (\<lambda>sum e. js_add sum (durationMinutes e)) (Some a) evs =
     (if \<forall>e \<in> set evs. durationMinutes e \<noteq> None
      then Some (a + (\<Sum>e\<leftarrow>evs. the (durationMinutes e))) else None)"
proof (induction evs arbitrary: a)
  case Nil
  then show ?case by simp
next
  case (Cons x xs)
  show ?case
  proof (cases "durationMinutes x")
    case None
    then show ?thesis by (simp add: js_add_simps foldl_js_add_None)
  next
    case (Some d)
    with Cons [of "a + d"] show ?thesis by (simp add: js_add_simps add.assoc)
  qed
qed

text \<open>
  Claim C4.  The summary of a normalized event list: \<^verbatim>\<open>totalEvents\<close> is the length of
  the list; \<^verbatim>\<open>totalHours\<close> is the sum of the \<^verbatim>\<open>durationMinutes\<close> divided by 60, with
  no rounding (not a number as soon as one duration is not a number);
  \<^verbatim>\<open>firstEventStart\<close> and \<^verbatim>\<open>lastEventEnd\<close> are read off the first and the last
  element of the list as it stands; the empty list gives \<open>{0, 0, null, null}\<close>.  This
  is the summary that \<^verbatim>\<open>GET /events/summary\<close> answers with on a cache miss.
\<close>

theorem buildSummary_totals:
  "buildSummary [] =
     \<lparr>totalEvents = 0, totalHours = Some 0, firstEventStart = None, lastEventEnd = None\<rparr> \<and>
   totalEvents (buildSummary evs) = length evs \<and>
   (evs \<noteq> [] \<longrightarrow>
      firstEventStart (buildSummary evs) = ev_start (hd evs) \<and>
      lastEventEnd (buildSummary evs) = ev_end (last evs)) \<and>
   totalHours (buildSummary evs) =
     (if \<forall>e \<in> set evs. durationMinutes e \<noteq> None
      then Some (of_int (\<Sum>e\<leftarrow>evs. the (durationMinutes e)) / 60) else None) \<and>
   (authenticated s e \<and> \<not> hit Summary s e now \<longrightarrow>
      (\<exists>es. processEvents parse (case items of Some rs \<Rightarrow> rs | None \<Rightarrow> []) = Inr es \<and>
         fst (handle parse Summary (Some e) now (Inr items) s) =
           Response 200 (SummaryJson (buildSummary es))))"
proof -
  have 1: "buildSummary [] =
     \<lparr>totalEvents = 0, totalHours = Some 0, firstEventStart = None, lastEventEnd = None\<rparr>"
    by (simp add: buildSummary_def)
  have 2: "totalEvents (buildSummary evs) = length evs"
    by (simp add: buildSummary_def)
  have 3: "firstEventStart (buildSummary evs) = ev_start (hd evs) \<and>
      lastEventEnd (buildSummary evs) = ev_end (last evs)" if "evs \<noteq> []"
    using that by (simp add: buildSummary_def hd_conv_nth last_conv_nth)
  have 4: "totalHours (buildSummary evs) =
     (if \<forall>e \<in> set evs. durationMinutes e \<noteq> None
      then Some (of_int (\<Sum>e\<leftarrow>evs. the (durationMinutes e)) / 60) else None)"
    by (cases "evs = []") (simp_all add: buildSummary_def foldl_js_add)
  have 5: "\<exists>es. processEvents parse (case items of Some rs \<Rightarrow> rs | None \<Rightarrow> []) = Inr es \<and>
         fst (handle parse Summary (Some e) now (Inr items) s) =
           Response 200 (SummaryJson (buildSummary es))"
    if auth: "authenticated s e" and miss: "\<not> hit Summary s e now"
  proof -
    from auth obtain u t where a: "e \<noteq> []" "getUser e s = Some u" "tokens u = Some t"
      by (rule authenticatedE)
    obtain es where es: "processEvents parse (case items of Some rs \<Rightarrow> rs | None \<Rightarrow> []) = Inr es"
      using processEvents_total by blast
    from miss have "case cache s e of None \<Rightarrow> True | Some c \<Rightarrow> summary c = None \<or> \<not> unexpired c now"
      by (auto simp: fresh_def split: option.splits)
    from getSummary_miss [OF a this, of parse "Inr items"] es show ?thesis
      by (simp add: fetch_ok)
  qed
  from 1 2 3 4 5 show ?thesis by blast
qed

theorem buildSummary_totals_witness:
  "ex_events \<noteq> [] \<and> authenticated ex_state1 ''ann@example.com'' \<and>
   \<not> hit Summary ex_state1 ''ann@example.com'' 2000 \<and>
   buildSummary ex_events =
     \<lparr>totalEvents = 2, totalHours = Some (1531 / 60),
      firstEventStart = Some ''2025-07-25T15:00:00Z'', lastEventEnd = Some ''2025-07-27''\<rparr> \<and>
   fst (handle ex_parse Summary (Some ''ann@example.com'') 2000 (Inr (Some ex_items)) ex_state1) =
     Response 200 (SummaryJson (buildSummary ex_events))"
proof -
  have n: "ex_events \<noteq> []" "\<forall>e \<in> set ex_events. durationMinutes e \<noteq> None"
    by (simp_all add: ex_events_def)
  have m: "\<not> hit Summary ex_state1 ''ann@example.com'' 2000"
    by (simp add: ex_state1_eq)
  note t = buildSummary_totals [of ex_events ex_state1 "''ann@example.com''" 2000 ex_parse "Some ex_items"]
  from t n have "totalEvents (buildSummary ex_events) = 2 \<and>
    totalHours (buildSummary ex_events) = Some (1531 / 60) \<and>
    firstEventStart (buildSummary ex_events) = Some ''2025-07-25T15:00:00Z'' \<and>
    lastEventEnd (buildSummary ex_events) = Some ''2025-07-27''"
    by (simp add: ex_events_def)
  then have "buildSummary ex_events =
     \<lparr>totalEvents = 2, totalHours = Some (1531 / 60),
      firstEventStart = Some ''2025-07-25T15:00:00Z'', lastEventEnd = Some ''2025-07-27''\<rparr>"
    by (cases "buildSummary ex_events") simp
  moreover from t ex_auth1 m have
    "fst (handle ex_parse Summary (Some ''ann@example.com'') 2000 (Inr (Some ex_items)) ex_state1) =
     Response 200 (SummaryJson (buildSummary ex_events))"
    by (simp add: ex_processed)
  ultimately show ?thesis using n ex_auth1 m by simp
qed

subsection \<open>The identity chain of the OAuth callback\<close>

lemma resolveEmail_chain:
  "truthy (fst (resolveEmail P t)) = (fst (fallback_chain P t) \<noteq> None) \<and>
   (truthy (fst (resolveEmail P t)) \<longrightarrow> fst (resolveEmail P t) = fst (fallback_chain P t)) \<and>
   snd (resolveEmail P t) = snd (fallback_chain P t)"
proof (cases "truthy (id_token t)")
  case idt: True
  show ?thesis
  proof (cases "verifyIdToken P (the (id_token t))")
    case (Inl m)
    show ?thesis
    proof (cases "truthy (access_token t)")
      case True
      with idt Inl show ?thesis
        by (cases "userinfo_get P t"; cases "getTokenInfo P (the (access_token t))")
          (auto simp: resolveEmail_def tryIdToken_def tryUserInfo_def tryTokenInfo_def
            fallback_chain_def idTokenEmail_def userInfoEmail_def tokenInfoEmail_def
            truthy_email_def truthy_def split: option.splits)
    next
      case False
      with idt Inl show ?thesis
        by (simp add: resolveEmail_def tryIdToken_def tryUserInfo_def tryTokenInfo_def
            fallback_chain_def idTokenEmail_def truthy_email_def truthy_def)
    qed
  next
    case (Inr v)
    show ?thesis
    proof (cases "truthy (access_token t)")
      case True
      with idt Inr show ?thesis
        by (cases "userinfo_get P t"; cases "getTokenInfo P (the (access_token t))")
          (auto simp: resolveEmail_def tryIdToken_def tryUserInfo_def tryTokenInfo_def
            fallback_chain_def idTokenEmail_def userInfoEmail_def tokenInfoEmail_def
            truthy_email_def truthy_def split: option.splits)
    next
      case False
      with idt Inr show ?thesis
        by (auto simp: resolveEmail_def tryIdToken_def tryUserInfo_def tryTokenInfo_def
            fallback_chain_def idTokenEmail_def truthy_email_def truthy_def split: option.splits)
    qed
  qed
next
  case idt: False
  show ?thesis
  proof (cases "truthy (access_token t)")
    case True
    with idt show ?thesis
      by (cases "userinfo_get P t"; cases "getTokenInfo P (the (access_token t))")
        (auto simp: resolveEmail_def tryIdToken_def tryUserInfo_def tryTokenInfo_def
          fallback_chain_def idTokenEmail_def userInfoEmail_def tokenInfoEmail_def
          truthy_email_def truthy_def split: option.splits)
  next
    case False
    with idt show ?thesis
      by (simp add: resolveEmail_def tryIdToken_def tryUserInfo_def tryTokenInfo_def
          fallback_chain_def idTokenEmail_def truthy_def)
  qed
qed


lemma fallback_chain_log:
  "snd (fallback_chain P t) =
     (if truthy (id_token t) then [IdToken] else []) @
     (if idTokenEmail P t = None \<and> truthy (access_token t) then [UserInfo] else []) @
     (if idTokenEmail P t = None \<and> userInfoEmail P t = None \<and> truthy (access_token t)
      then [TokenInfo] else [])"
  by (auto simp: fallback_chain_def Let_def idTokenEmail_def split: option.splits)

lemma fallback_chain_email:
  "fst (fallback_chain P t) =
     (case idTokenEmail P t of
        Some e \<Rightarrow> Some e
      | None \<Rightarrow> (case userInfoEmail P t of Some e \<Rightarrow> Some e | None \<Rightarrow> tokenInfoEmail P t))"
  by (auto simp: fallback_chain_def Let_def userInfoEmail_def tokenInfoEmail_def split: option.splits)

lemma oauth2callback_resolved:
  assumes "truthy code" "getToken P (the code) = Inr t"
  shows "oauth2callback P code s =
     (if \<not> truthy (fst (resolveEmail P t)) then
        (Response 400
           (Text ''Could not get user email from any method. Please check OAuth2 scopes.''),
         s\<lparr>credentials := Some t\<rparr>, snd (resolveEmail P t))
      else
        (Response 200
           (Text (''Authentication successful for '' @ the (fst (resolveEmail P t)) @
                  ''! Use your email in the X-User-Email header for API requests.'')),
         invalidateCache (the (fst (resolveEmail P t)))
           (saveUser (the (fst (resolveEmail P t))) t (s\<lparr>credentials := Some t\<rparr>)),
         snd (resolveEmail P t)))"
  using assms by (simp add: oauth2callback_def Let_def split: prod.splits)

text \<open>
  Claim C3.  After a successful code exchange the callback tries the identity token,
  then the user-info endpoint, then the token introspection, in this order: the first
  only when an identity token is present, each later one only when the earlier ones
  recovered no e-mail and an access token is present.  When none recovers an e-mail
  the response is 400 and neither the user store nor the cache changes; otherwise the
  response is 200 and the tokens are saved under the first e-mail recovered.
\<close>

theorem oauth2callback_identity_chain:
  assumes "truthy code" "getToken P (the code) = Inr t"
  shows "snd (snd (oauth2callback P code s)) =
           (if truthy (id_token t) then [IdToken] else []) @
           (if idTokenEmail P t = None \<and> truthy (access_token t) then [UserInfo] else []) @
           (if idTokenEmail P t = None \<and> userInfoEmail P t = None \<and> truthy (access_token t)
            then [TokenInfo] else []) \<and>
         (idTokenEmail P t = None \<and> userInfoEmail P t = None \<and> tokenInfoEmail P t = None \<longrightarrow>
            status (fst (oauth2callback P code s)) = 400 \<and>
            users (fst (snd (oauth2callback P code s))) = users s \<and>
            cache (fst (snd (oauth2callback P code s))) = cache s) \<and>
         (\<forall>e. (case idTokenEmail P t of
                 Some e \<Rightarrow> Some e
               | None \<Rightarrow> (case userInfoEmail P t of Some e \<Rightarrow> Some e | None \<Rightarrow> tokenInfoEmail P t))
                = Some e \<longrightarrow>
            status (fst (oauth2callback P code s)) = 200 \<and>
            users (fst (snd (oauth2callback P code s))) = upsert e t (users s) \<and>
            cache (fst (snd (oauth2callback P code s))) =
              (cache s)(e \<mapsto> \<lparr>events = None, summary = None, expiry = Some 0\<rparr>))"
proof -
  note r = resolveEmail_chain [of P t]
  note o = oauth2callback_resolved [OF assms, of s]
  have log: "snd (snd (oauth2callback P code s)) = snd (fallback_chain P t)"
    using o r by simp
  have fail: "status (fst (oauth2callback P code s)) = 400 \<and>
            users (fst (snd (oauth2callback P code s))) = users s \<and>
            cache (fst (snd (oauth2callback P code s))) = cache s"
    if "fst (fallback_chain P t) = None"
    using o r that by simp
  have ok: "status (fst (oauth2callback P code s)) = 200 \<and>
            users (fst (snd (oauth2callback P code s))) = upsert e t (users s) \<and>
            cache (fst (snd (oauth2callback P code s))) =
              (cache s)(e \<mapsto> \<lparr>events = None, summary = None, expiry = Some 0\<rparr>)"
    if "fst (fallback_chain P t) = Some e" for e
  proof -
    from r that have "truthy (fst (resolveEmail P t))" "fst (resolveEmail P t) = Some e"
      by simp_all
    with o show ?thesis by (simp add: invalidateCache_def saveUser_def)
  qed
  from log fail ok show ?thesis
    unfolding fallback_chain_log fallback_chain_email by simp
qed

theorem oauth2callback_identity_chain_witness:
  "truthy (Some ''code-2'') \<and> getToken ex_oauth_fail ''code-2'' = Inr ex_tokens2 \<and>
   idTokenEmail ex_oauth_fail ex_tokens2 = None \<and> userInfoEmail ex_oauth_fail ex_tokens2 = None \<and>
   tokenInfoEmail ex_oauth_fail ex_tokens2 = None \<and>
   snd (snd (oauth2callback ex_oauth_fail (Some ''code-2'') ex_state)) = [IdToken, UserInfo, TokenInfo] \<and>
   status (fst (oauth2callback ex_oauth_fail (Some ''code-2'') ex_state)) = 400 \<and>
   users (fst (snd (oauth2callback ex_oauth_fail (Some ''code-2'') ex_state))) = users ex_state \<and>
   tokenInfoEmail ex_oauth_ok ex_tokens2 = Some ''bob@example.com'' \<and>
   status (fst (oauth2callback ex_oauth_ok (Some ''code-2'') ex_state)) = 200 \<and>
   users (fst (snd (oauth2callback ex_oauth_ok (Some ''code-2'') ex_state))) =
     [\<lparr>email = ''ann@example.com'', tokens = Some ex_tokens\<rparr>,
      \<lparr>email = ''bob@example.com'', tokens = Some ex_tokens2\<rparr>]"
proof -
  have c: "truthy (Some ''code-2'')" by (simp add: truthy_def)
  have g: "getToken ex_oauth_fail (the (Some ''code-2'')) = Inr ex_tokens2"
    "getToken ex_oauth_ok (the (Some ''code-2'')) = Inr ex_tokens2"
    by (simp_all add: ex_oauth_fail_def ex_oauth_ok_def)
  have y: "idTokenEmail ex_oauth_fail ex_tokens2 = None" "userInfoEmail ex_oauth_fail ex_tokens2 = None"
    "tokenInfoEmail ex_oauth_fail ex_tokens2 = None"
    "idTokenEmail ex_oauth_ok ex_tokens2 = None" "userInfoEmail ex_oauth_ok ex_tokens2 = None"
    "tokenInfoEmail ex_oauth_ok ex_tokens2 = Some ''bob@example.com''"
    by (simp_all add: idTokenEmail_def userInfoEmail_def tokenInfoEmail_def truthy_email_def
        truthy_def ex_oauth_fail_def ex_oauth_ok_def ex_tokens2_def)
  have t: "truthy (id_token ex_tokens2)" "truthy (access_token ex_tokens2)"
    by (simp_all add: truthy_def ex_tokens2_def)
  show ?thesis
    using c g y t oauth2callback_identity_chain [OF c g(1), of ex_state]
      oauth2callback_identity_chain [OF c g(2), of ex_state]
    by (simp add: ex_state_def ex_users_def)
qed

subsection \<open>The cache window\<close>

lemma holds_until_hit:
  assumes "authenticated s e" "holds_until ep e b X s" "now < X"
  shows "\<exists>t. handle parse ep (Some e) now prov s = (Response 200 b, s\<lparr>credentials := Some t\<rparr>)"
proof -
  from assms(1) obtain u t where a: "e \<noteq> []" "getUser e s = Some u" "tokens u = Some t"
    by (rule authenticatedE)
  from assms(2) obtain c x where c: "cache s e = Some c" "cached_body ep c = Some b"
    "expiry c = Some x" "X \<le> x"
    by (auto simp: holds_until_def split: option.splits)
  with assms(3) have u: "unexpired c now" by (simp add: unexpired_def)
  show ?thesis
  proof (cases ep)
    case Events
    with c obtain evs where "events c = Some evs" "b = EventsJson evs" by auto
    with getEvents_hit [OF a c(1) this(1) u] Events show ?thesis by auto
  next
    case Summary
    with c obtain sm where "summary c = Some sm" "b = SummaryJson sm" by auto
    with getSummary_hit [OF a c(1) this(1) u] Summary show ?thesis by auto
  next
    case (EventById rid)
    with c show ?thesis by simp
  qed
qed

lemma handle_users: "users (snd (handle parse ep hdr now prov s)) = users s"
proof (cases rule: rejected_or_authenticated [of hdr s])
  case (rejected r)
  then show ?thesis by (simp add: handle_rejected)
next
  case (accepted e)
  from accepted(2) obtain u t where a: "e \<noteq> []" "getUser e s = Some u" "tokens u = Some t"
    by (rule authenticatedE)
  show ?thesis
  proof (cases "hit ep s e now")
    case True
    from hit_state [OF accepted(2) True, of parse prov] accepted(1) show ?thesis by auto
  next
    case False
    show ?thesis
    proof (cases ep)
      case Events
      with False have "case cache s e of None \<Rightarrow> True | Some c \<Rightarrow> events c = None \<or> \<not> unexpired c now"
        by (auto simp: fresh_def split: option.splits)
      from getEvents_miss [OF a this] Events accepted(1) show ?thesis
        by (cases rule: fetch_cases [of prov parse "s\<lparr>credentials := Some t\<rparr>"]) simp_all
    next
      case Summary
      with False have "case cache s e of None \<Rightarrow> True | Some c \<Rightarrow> summary c = None \<or> \<not> unexpired c now"
        by (auto simp: fresh_def split: option.splits)
      from getSummary_miss [OF a this] Summary accepted(1) show ?thesis
        by (cases rule: fetch_cases [of prov parse "s\<lparr>credentials := Some t\<rparr>"]) simp_all
    next
      case (EventById rid)
      from getEventById_auth [OF a] EventById accepted(1) show ?thesis
        by (cases rule: fetch_cases [of prov parse "s\<lparr>credentials := Some t\<rparr>"])
          (simp_all split: option.splits)
    qed
  qed
qed


lemma handle_cache:
  "cache (snd (handle parse ep hdr now prov s)) = cache s \<or>
   (\<exists>e evs. hdr = Some e \<and> \<not> hit ep s e now \<and>
      (ep = Events \<and>
         cache (snd (handle parse ep hdr now prov s)) =
           (cache s)(e \<mapsto> (entry_or_empty s e)\<lparr>events := Some evs,
                                                  expiry := Some (now + CACHE_TTL_MS)\<rparr>) \<or>
       ep = Summary \<and>
         cache (snd (handle parse ep hdr now prov s)) =
           (cache s)(e \<mapsto> (entry_or_empty s e)\<lparr>summary := Some (buildSummary evs),
                                                  expiry := Some (now + CACHE_TTL_MS)\<rparr>)))"
proof (cases rule: rejected_or_authenticated [of hdr s])
  case (rejected r)
  then show ?thesis by (simp add: handle_rejected)
next
  case (accepted e)
  from accepted(2) obtain u t where a: "e \<noteq> []" "getUser e s = Some u" "tokens u = Some t"
    by (rule authenticatedE)
  show ?thesis
  proof (cases "hit ep s e now")
    case True
    from hit_state [OF accepted(2) True, of parse prov] accepted(1) show ?thesis by auto
  next
    case False
    show ?thesis
    proof (cases ep)
      case Events
      with False have "case cache s e of None \<Rightarrow> True | Some c \<Rightarrow> events c = None \<or> \<not> unexpired c now"
        by (auto simp: fresh_def split: option.splits)
      from getEvents_miss [OF a this, of parse prov] Events accepted(1) False show ?thesis
        by (cases rule: fetch_cases [of prov parse "s\<lparr>credentials := Some t\<rparr>"])
          (auto simp: entry_or_empty_def)
    next
      case Summary
      with False have "case cache s e of None \<Rightarrow> True | Some c \<Rightarrow> summary c = None \<or> \<not> unexpired c now"
        by (auto simp: fresh_def split: option.splits)
      from getSummary_miss [OF a this, of parse prov] Summary accepted(1) False show ?thesis
        by (cases rule: fetch_cases [of prov parse "s\<lparr>credentials := Some t\<rparr>"])
          (auto simp: entry_or_empty_def)
    next
      case (EventById rid)
      from getEventById_auth [OF a] EventById accepted(1) show ?thesis
        by (cases rule: fetch_cases [of prov parse "s\<lparr>credentials := Some t\<rparr>"])
          (simp_all split: option.splits)
    qed
  qed
qed

lemma holds_until_step:
  assumes h: "holds_until ep e b X s" and t: "X - CACHE_TTL_MS \<le> now" "now < X"
  shows "holds_until ep e b X (snd (handle parse ep' hdr now prov s))"
proof -
  from h obtain c x where c: "cache s e = Some c" "cached_body ep c = Some b"
    "expiry c = Some x" "X \<le> x"
    by (auto simp: holds_until_def split: option.splits)
  from c t have u: "unexpired c now" by (simp add: unexpired_def)
  from handle_cache [of parse ep' hdr now prov s] show ?thesis
  proof (elim disjE exE conjE)
    assume "cache (snd (handle parse ep' hdr now prov s)) = cache s"
    with h show ?thesis by (simp add: holds_until_def)
  next
    fix e' evs
    assume m: "\<not> hit ep' s e' now" and ep': "ep' = Events"
      and n: "cache (snd (handle parse ep' hdr now prov s)) =
        (cache s)(e' \<mapsto> (entry_or_empty s e')\<lparr>events := Some evs, expiry := Some (now + CACHE_TTL_MS)\<rparr>)"
    show ?thesis
    proof (cases "e' = e")
      case False
      with n h show ?thesis by (simp add: holds_until_def)
    next
      case True
      with m ep' c u have "events c = None" by (simp add: fresh_def)
      with c have "ep \<noteq> Events" by auto
      with c have "cached_body ep (c\<lparr>events := Some evs, expiry := Some (now + CACHE_TTL_MS)\<rparr>) = Some b"
        by (cases ep) simp_all
      with True n c t show ?thesis by (simp add: holds_until_def entry_or_empty_def)
    qed
  next
    fix e' evs
    assume m: "\<not> hit ep' s e' now" and ep': "ep' = Summary"
      and n: "cache (snd (handle parse ep' hdr now prov s)) =
        (cache s)(e' \<mapsto> (entry_or_empty s e')\<lparr>summary := Some (buildSummary evs),
                                                 expiry := Some (now + CACHE_TTL_MS)\<rparr>)"
    show ?thesis
    proof (cases "e' = e")
      case False
      with n h show ?thesis by (simp add: holds_until_def)
    next
      case True
      with m ep' c u have "summary c = None" by (simp add: fresh_def)
      with c have "ep \<noteq> Summary" by auto
      with c have "cached_body ep (c\<lparr>summary := Some (buildSummary evs),
                                      expiry := Some (now + CACHE_TTL_MS)\<rparr>) = Some b"
        by (cases ep) simp_all
      with True n c t show ?thesis by (simp add: holds_until_def entry_or_empty_def)
    qed
  qed
qed

lemma holds_until_run:
  assumes "holds_until ep e b X s"
    and "\<forall>r \<in> set rs. X - CACHE_TTL_MS \<le> fst (snd (snd r)) \<and> fst (snd (snd r)) < X"
  shows "holds_until ep e b X (run parse rs s)"
  using assms
proof (induction rs arbitrary: s)
  case Nil
  then show ?case by simp
next
  case (Cons r rs)
  obtain ep' hdr now prov where r: "r = (ep', hdr, now, prov)" by (cases r) auto
  with Cons.prems have "holds_until ep e b X (snd (handle parse ep' hdr now prov s))"
    by (intro holds_until_step) simp_all
  with Cons r show ?case by simp
qed

lemma run_users: "users (run parse rs s) = users s"
  by (induction rs arbitrary: s) (auto simp: handle_users)

lemma authenticated_run: "authenticated (run parse rs s) e = authenticated s e"
  by (simp add: authenticated_def getUser_def run_users)


lemma first_fetch:
  assumes ep: "ep = Events \<or> ep = Summary"
    and auth: "authenticated s e"
    and miss: "\<not> hit ep s e now"
  shows "\<exists>b. fst (handle parse ep (Some e) now (Inr items) s) = Response 200 b \<and>
           holds_until ep e b (now + CACHE_TTL_MS) (snd (handle parse ep (Some e) now (Inr items) s)) \<and>
           \<not> fresh (snd (handle parse ep (Some e) now (Inr items) s)) e (now + CACHE_TTL_MS)"
proof -
  from auth obtain u t where a: "e \<noteq> []" "getUser e s = Some u" "tokens u = Some t"
    by (rule authenticatedE)
  obtain es where es: "processEvents parse (case items of Some rs \<Rightarrow> rs | None \<Rightarrow> []) = Inr es"
    using processEvents_total by blast
  from ep show ?thesis
  proof
    assume Events: "ep = Events"
    with miss have "case cache s e of None \<Rightarrow> True | Some c \<Rightarrow> events c = None \<or> \<not> unexpired c now"
      by (auto simp: fresh_def split: option.splits)
    from getEvents_miss [OF a this, of parse "Inr items"] es Events show ?thesis
      by (simp add: fetch_ok holds_until_def fresh_def unexpired_def)
  next
    assume Summary: "ep = Summary"
    with miss have "case cache s e of None \<Rightarrow> True | Some c \<Rightarrow> summary c = None \<or> \<not> unexpired c now"
      by (auto simp: fresh_def split: option.splits)
    from getSummary_miss [OF a this, of parse "Inr items"] es Summary show ?thesis
      by (simp add: fetch_ok holds_until_def fresh_def unexpired_def)
  qed
qed

lemma not_fresh_not_hit: "\<not> fresh s e now \<Longrightarrow> \<not> hit ep s e now"
  by (cases ep) simp_all

text \<open>
  Claim C1, amended.  For \<^verbatim>\<open>GET /events\<close> and \<^verbatim>\<open>GET /events/summary\<close>: a request of
  an authenticated user that misses the cache at time \<open>now1\<close> and whose provider call
  succeeds makes one provider call and answers 200.  After it, and after any read
  requests of any users made at times in \<open>[now1, now1 + 60000)\<close>, a request of that
  user to the same endpoint at a time before \<open>now1 + 60000\<close> returns the identical
  response and makes no provider call.  A request made right after the first one at
  \<open>now1 + 60000\<close> or later, and any request made when the user's entry is absent or
  expired, makes exactly one provider call.  (\<^verbatim>\<open>GET /events/:id\<close> is not cached; see
  C5.)
\<close>

theorem cached_endpoints_ttl:
  assumes ep: "ep = Events \<or> ep = Summary"
    and auth: "authenticated s e"
    and miss: "\<not> hit ep s e now1"
    and between: "\<forall>r \<in> set rs. now1 \<le> fst (snd (snd r)) \<and> fst (snd (snd r)) < now1 + CACHE_TTL_MS"
  shows "provider_calls (snd (handle parse ep (Some e) now1 (Inr items) s)) = provider_calls s + 1 \<and>
         status (fst (handle parse ep (Some e) now1 (Inr items) s)) = 200 \<and>
         (now2 < now1 + CACHE_TTL_MS \<longrightarrow>
            fst (handle parse ep (Some e) now2 prov2
                   (run parse rs (snd (handle parse ep (Some e) now1 (Inr items) s)))) =
              fst (handle parse ep (Some e) now1 (Inr items) s) \<and>
            provider_calls
              (snd (handle parse ep (Some e) now2 prov2
                      (run parse rs (snd (handle parse ep (Some e) now1 (Inr items) s))))) =
              provider_calls (run parse rs (snd (handle parse ep (Some e) now1 (Inr items) s)))) \<and>
         (now1 + CACHE_TTL_MS \<le> now2 \<longrightarrow>
            provider_calls
              (snd (handle parse ep (Some e) now2 prov2
                      (snd (handle parse ep (Some e) now1 (Inr items) s)))) =
              provider_calls (snd (handle parse ep (Some e) now1 (Inr items) s)) + 1) \<and>
         (\<not> fresh s e now2 \<longrightarrow>
            provider_calls (snd (handle parse ep (Some e) now2 prov2 s)) = provider_calls s + 1)"
proof -
  let ?s1 = "snd (handle parse ep (Some e) now1 (Inr items) s)"
  let ?X = "now1 + CACHE_TTL_MS"
  from first_fetch [OF ep auth miss, of parse items] obtain b
    where b: "fst (handle parse ep (Some e) now1 (Inr items) s) = Response 200 b"
      and h: "holds_until ep e b ?X ?s1" and x: "\<not> fresh ?s1 e ?X"
    by blast
  have auth1: "authenticated ?s1 e"
    using auth by (simp add: authenticated_def getUser_def handle_users)
  have 1: "provider_calls ?s1 = provider_calls s + 1"
    using miss_calls [OF auth miss] .
  have 2: "status (fst (handle parse ep (Some e) now1 (Inr items) s)) = 200"
    using b by simp
  have 3: "fst (handle parse ep (Some e) now2 prov2 (run parse rs ?s1)) =
              fst (handle parse ep (Some e) now1 (Inr items) s) \<and>
           provider_calls (snd (handle parse ep (Some e) now2 prov2 (run parse rs ?s1))) =
              provider_calls (run parse rs ?s1)"
    if "now2 < ?X"
  proof -
    from between have "\<forall>r \<in> set rs. ?X - CACHE_TTL_MS \<le> fst (snd (snd r)) \<and> fst (snd (snd r)) < ?X"
      by simp
    from holds_until_run [OF h this] have hr: "holds_until ep e b ?X (run parse rs ?s1)" .
    from auth1 have ar: "authenticated (run parse rs ?s1) e"
      by (simp add: authenticated_run)
    from holds_until_hit [OF ar hr that, of parse prov2] obtain t where
      "handle parse ep (Some e) now2 prov2 (run parse rs ?s1) =
         (Response 200 b, (run parse rs ?s1)\<lparr>credentials := Some t\<rparr>)"
      by blast
    with b show ?thesis by simp
  qed
  have 4: "provider_calls (snd (handle parse ep (Some e) now2 prov2 ?s1)) = provider_calls ?s1 + 1"
    if "?X \<le> now2"
  proof -
    from x that have "\<not> fresh ?s1 e now2"
      by (auto simp: fresh_def unexpired_def split: option.splits)
    then have "\<not> hit ep ?s1 e now2" by (rule not_fresh_not_hit)
    from miss_calls [OF auth1 this] show ?thesis .
  qed
  have 5: "provider_calls (snd (handle parse ep (Some e) now2 prov2 s)) = provider_calls s + 1"
    if "\<not> fresh s e now2"
    using miss_calls [OF auth not_fresh_not_hit [OF that]] .
  from 1 2 3 4 5 show ?thesis by blast
qed

lemma ex_first:
  "getEvents ex_parse (Some ''ann@example.com'') 1000 (Inr (Some ex_items)) ex_state =
     (Response 200 (EventsJson ex_events), ex_state1)"
  by (simp add: ex_state1_def getEvents_def ensureAuthenticated_def getUser_def ex_state_def
      ex_users_def fetch_ok ex_processed)

theorem cached_endpoints_ttl_witness:
  "authenticated ex_state ''ann@example.com'' \<and>
   \<not> hit Events ex_state ''ann@example.com'' 1000 \<and>
   fst (handle ex_parse Events (Some ''ann@example.com'') 60999 (Inl ''backend error'')
          (run ex_parse ex_between ex_state1)) = Response 200 (EventsJson ex_events) \<and>
   provider_calls (snd (handle ex_parse Events (Some ''ann@example.com'') 60999 (Inl ''backend error'')
                          (run ex_parse ex_between ex_state1))) =
     provider_calls (run ex_parse ex_between ex_state1) \<and>
   provider_calls (snd (handle ex_parse Events (Some ''ann@example.com'') 61000 (Inr None) ex_state1)) = 2"
proof -
  have m: "\<not> hit Events ex_state ''ann@example.com'' 1000"
    by (simp add: ex_state_def fresh_def)
  have b: "\<forall>r \<in> set ex_between. 1000 \<le> fst (snd (snd r)) \<and> fst (snd (snd r)) < 1000 + CACHE_TTL_MS"
    by (simp add: ex_between_def CACHE_TTL_MS_def)
  have e: "Events = Events \<or> Events = Summary" by simp
  have n: "provider_calls ex_state1 = 1" by (simp add: ex_state1_eq)
  show ?thesis
    using ex_auth m b n
      cached_endpoints_ttl [OF e ex_auth m b, of ex_parse "Some ex_items" 60999 "Inl ''backend error''"]
      cached_endpoints_ttl [OF e ex_auth m b, of ex_parse "Some ex_items" 61000 "Inr None"]
    unfolding handle.simps ex_first by (simp add: CACHE_TTL_MS_def)
qed

text \<open>
  Claim C1 as stated fails for \<^verbatim>\<open>GET /events/:id\<close>: two requests of one user, one
  second apart, make two provider calls, and the second answers 404 where the first
  answered 200 once the provider's list has changed.
\<close>

theorem single_event_lookup_counterexample:
  "authenticated ex_state ''ann@example.com'' \<and> (2000 :: int) < 1000 + CACHE_TTL_MS \<and>
   fst (handle ex_parse (EventById ''ev1'') (Some ''ann@example.com'') 1000 (Inr (Some ex_items))
          ex_state) = Response 200 (EventJson (ex_events ! 0)) \<and>
   fst (handle ex_parse (EventById ''ev1'') (Some ''ann@example.com'') 2000 (Inr (Some [ex_allday]))
          (snd (handle ex_parse (EventById ''ev1'') (Some ''ann@example.com'') 1000
                  (Inr (Some ex_items)) ex_state))) =
     Response 404 (ErrorJson ''Event not found'' None) \<and>
   provider_calls
     (snd (handle ex_parse (EventById ''ev1'') (Some ''ann@example.com'') 2000 (Inr (Some [ex_allday]))
             (snd (handle ex_parse (EventById ''ev1'') (Some ''ann@example.com'') 1000
                     (Inr (Some ex_items)) ex_state)))) =
     provider_calls
       (snd (handle ex_parse (EventById ''ev1'') (Some ''ann@example.com'') 1000
               (Inr (Some ex_items)) ex_state)) + 1"
proof -
  have p: "processEvents ex_parse [ex_allday] = Inr [ex_events ! 1]"
    using ex_excluded(3) by (simp add: processEvents_def keep_iff_not_excluded ex_normalize)
  have 1: "getEventById ex_parse ''ev1'' (Some ''ann@example.com'') (Inr (Some ex_items))
          ex_state =
       (Response 200 (EventJson (ex_events ! 0)),
        ex_state\<lparr>credentials := Some ex_tokens, provider_calls := 1\<rparr>)"
    by (simp add: getEventById_def ensureAuthenticated_def getUser_def ex_state_def
        ex_users_def fetch_ok ex_processed) (simp add: ex_events_def)
  have 2: "getEventById ex_parse ''ev1'' (Some ''ann@example.com'') (Inr (Some [ex_allday]))
          (ex_state\<lparr>credentials := Some ex_tokens, provider_calls := 1\<rparr>) =
       (Response 404 (ErrorJson ''Event not found'' None),
        ex_state\<lparr>credentials := Some ex_tokens, provider_calls := 2\<rparr>)"
    by (simp add: getEventById_def ensureAuthenticated_def getUser_def ex_state_def
        ex_users_def fetch_ok p) (simp add: ex_events_def)
  show ?thesis
    using ex_auth unfolding handle.simps 1 snd_conv 2 by (simp add: CACHE_TTL_MS_def)
qed

end
